theory Spec2Isabelle
  imports Main "HOL-Library.Word"
begin

section \<open>The tablet manager of the OLAP storage engine\<close>

text \<open>
  A shallow embedding of \<^verbatim>\<open>TabletManager\<close> (tablet_manager.cpp), of the
  part of \<^verbatim>\<open>DataDir\<close> it calls (data_dir.cpp) and of
  \<^verbatim>\<open>AlphaRowsetWriter\<close> (alpha_rowset_writer.cpp).

  Conventions of the embedding.
  \<^item> The manager runs every operation under one registry lock, so an operation is a
    function from the state before to the state after; the locks themselves, logging and
    metrics are left out.
  \<^item> A \<^verbatim>\<open>TabletSharedPtr\<close> is modelled by the value of the tablet it points to. A
    mutation through the pointer of a registered tablet is an update of that tablet inside
    the registry.
  \<^item> \<^verbatim>\<open>LOG(FATAL)\<close> ends the process. An operation therefore returns an
    \<open>option\<close>: \<open>None\<close> is the aborted process, \<open>Some (status, state)\<close> a return.
  \<^item> Null results of \<^verbatim>\<open>new (std::nothrow)\<close> (out of memory) are not modelled. The
    dereference of a pointer that the code has set to null ends the process, like
    \<^verbatim>\<open>LOG(FATAL)\<close>.
  \<^item> Identifiers and schema hashes are \<open>int\<close>: the code only copies and compares
    them. Creation times are \<open>int64_t\<close> in the code and are incremented, so they are
    \<open>64 word\<close>, read with \<open>sint\<close>, and the increment wraps around. Version numbers are
    signed machine integers too. The declarations that fix their width are not part of
    the sources; they are taken as \<open>64 word\<close>, read with \<open>sint\<close>, so that
    \<^verbatim>\<open>request.version + 1\<close> wraps around, and where the code stores a version in an
    \<^verbatim>\<open>int32_t\<close> local it is converted to \<open>32 word\<close>. Compaction scores are
    \<open>uint32_t\<close>, so \<open>32 word\<close> with the unsigned order.
  \<^item> The filesystem and the pending-id marks of a \<^verbatim>\<open>DataDir\<close> are not part of the
    state; what the filesystem answers is a parameter.
\<close>

subsection \<open>Status codes and enumerations\<close>

datatype OLAPStatus =
    OLAP_SUCCESS
  | OLAP_ERR_ENGINE_INSERT_EXISTS_TABLE
  | OLAP_ERR_CE_TABLET_ID_EXIST
  | OLAP_ERR_CE_CMD_PARAMS_ERROR
  | OLAP_ERR_TABLE_NOT_FOUND
  | OLAP_ERR_TABLE_CREATE_FROM_HEADER_ERROR
  | OLAP_ERR_TABLE_INDEX_VALIDATE_ERROR
  | OLAP_ERR_TABLE_ALREADY_DELETED_ERROR
  | OLAP_ERR_HEADER_PB_PARSE_FAILED
  | OLAP_ERR_PREVIOUS_SCHEMA_CHANGE_NOT_FINISHED
  | OLAP_ERR_INPUT_PARAMETER_ERROR
  | OLAP_ERR_MALLOC_ERROR
  | OLAP_ERR_IO_ERROR

datatype TabletState = TABLET_NORMAL | TABLET_SHUTDOWN

datatype AlterTabletState = ALTER_RUNNING | ALTER_FINISHED | ALTER_FAILED

datatype RowsetStatePB = PREPARING | COMMITTED | VISIBLE

datatype RowsetTypePB = ALPHA_ROWSET | BETA_ROWSET

datatype CompactionType = BASE_COMPACTION | CUMULATIVE_COMPACTION

subsection \<open>Rowsets, tablets, requests\<close>

record AlterTabletTask =
  alter_state :: AlterTabletState
  related_tablet_id :: int
  related_schema_hash :: int

text \<open>
  A rowset is its meta (the fields \<^verbatim>\<open>AlphaRowsetWriter::init\<close> sets) and the row counts
  of its segment groups.
\<close>

record Rowset =
  rowset_id :: int
  rs_tablet_id :: int
  rs_tablet_schema_hash :: int
  rowset_type :: RowsetTypePB
  rowset_state :: RowsetStatePB
  rowset_path :: string
  txn_id :: int
  load_id :: int
  version :: "64 word \<times> 64 word"
  version_hash :: int
  rs_creation_time :: "64 word"
  segment_group_rows :: "nat list"

definition end_version :: "Rowset \<Rightarrow> 64 word" where
  "end_version r = snd (version r)"

definition rowset_empty :: "Rowset \<Rightarrow> bool" where
  "rowset_empty r = (sum_list (segment_group_rows r) = 0)"

text \<open>
  The observable attributes of a tablet. A \<^verbatim>\<open>DataDir*\<close> is modelled by the path of
  the directory. The last four fields are what \<^verbatim>\<open>init_succeeded()\<close>,
  \<^verbatim>\<open>can_do_compaction()\<close>, \<^verbatim>\<open>calc_base_compaction_score()\<close> and
  \<^verbatim>\<open>calc_cumulative_compaction_score()\<close> answer.
\<close>

record Tablet =
  tablet_id :: int
  schema_hash :: int
  partition_id :: int
  creation_time :: "64 word"
  tablet_path :: string
  data_dir :: string
  tablet_state :: TabletState
  alter_task :: "AlterTabletTask option"
  rowsets :: "Rowset list"
  cumulative_layer_point :: "64 word"
  init_succeeded :: bool
  can_do_compaction :: bool
  calc_base_compaction_score :: "32 word"
  calc_cumulative_compaction_score :: "32 word"

record TCreateTabletReq =
  req_tablet_id :: int
  req_schema_hash :: int
  req_partition_id :: int
  req_version :: "64 word"
  req_version_hash :: int

record TabletInfo =
  info_tablet_id :: int
  info_schema_hash :: int

record RowsetWriterContext =
  ctx_rowset_id :: int
  ctx_tablet_id :: int
  ctx_partition_id :: int
  ctx_tablet_schema_hash :: int
  ctx_rowset_type :: RowsetTypePB
  ctx_rowset_path_prefix :: string
  ctx_rowset_state :: RowsetStatePB
  ctx_data_dir :: string
  ctx_version :: "64 word \<times> 64 word"
  ctx_version_hash :: int
  ctx_txn_id :: int
  ctx_load_id :: int

subsection \<open>The state\<close>

text \<open>
  \<open>tablet_map\<close> is \<^verbatim>\<open>std::map<int64_t, TableInstances>\<close>: an association list
  in ascending key order, the order in which the code iterates over it.
  \<open>shutdown_tablets\<close> is the queue of dropped tablets. \<open>meta_store\<close> is the
  durable store behind \<^verbatim>\<open>TabletMetaManager\<close>, keyed by directory, tablet id and schema
  hash; \<open>tablet_set\<close> is \<^verbatim>\<open>DataDir::_tablet_set\<close> of each directory.
\<close>

record engine =
  tablet_map :: "(int \<times> Tablet list) list"
  shutdown_tablets :: "Tablet list"
  meta_store :: "string \<times> int \<times> int \<Rightarrow> Tablet option"
  tablet_set :: "string \<Rightarrow> (int \<times> int) set"

text \<open>
  The collaborators whose code is not part of the sources are parameters: what each call
  answers. A save that answers \<open>OLAP_SUCCESS\<close> has written the meta to the store.
\<close>

record collab =
  meta_manager_save :: "Tablet \<Rightarrow> OLAPStatus"
  tablet_save_meta :: "Tablet \<Rightarrow> OLAPStatus"
  tablet_init :: "Tablet \<Rightarrow> OLAPStatus"
  deserialize :: "string \<Rightarrow> Tablet option"
  is_used :: "Tablet \<Rightarrow> bool"
  get_shard :: "string \<Rightarrow> OLAPStatus \<times> nat"
  check_dir_existed :: "string \<Rightarrow> bool"
  create_dirs :: "string \<Rightarrow> OLAPStatus"
  schema_hash_dir :: "string \<Rightarrow> nat \<Rightarrow> int \<Rightarrow> int \<Rightarrow> string"
  tablet_template :: Tablet
  next_rowset_id :: "Tablet \<Rightarrow> OLAPStatus \<times> int"
  add_rowset_status :: "Tablet \<Rightarrow> Rowset \<Rightarrow> OLAPStatus"
  default_context :: RowsetWriterContext

subsection \<open>The registry map\<close>

text \<open>\<^verbatim>\<open>std::map::find\<close> is \<open>map_of\<close>. Storing under a key keeps the keys ascending.\<close>

fun tm_put :: "int \<Rightarrow> Tablet list \<Rightarrow> (int \<times> Tablet list) list \<Rightarrow> (int \<times> Tablet list) list" where
  "tm_put k v [] = [(k, v)]"
| "tm_put k v ((k', v') # m) =
     (if k = k' then (k, v) # m
      else if k < k' then (k, v) # (k', v') # m
      else (k', v') # tm_put k v m)"

definition tm_erase :: "int \<Rightarrow> (int \<times> Tablet list) list \<Rightarrow> (int \<times> Tablet list) list" where
  "tm_erase k m = filter (\<lambda>e. fst e \<noteq> k) m"

text \<open>\<^verbatim>\<open>_tablet_map[tablet_id]\<close>: \<^verbatim>\<open>operator[]\<close> inserts an empty bucket under a missing key.\<close>

definition tm_index :: "int \<Rightarrow> (int \<times> Tablet list) list \<Rightarrow> (int \<times> Tablet list) list" where
  "tm_index k m = (case map_of m k of None \<Rightarrow> tm_put k [] m | Some b \<Rightarrow> m)"

definition table_arr :: "(int \<times> Tablet list) list \<Rightarrow> int \<Rightarrow> Tablet list" where
  "table_arr m k = (case map_of m k of None \<Rightarrow> [] | Some b \<Rightarrow> b)"

subsection \<open>Tablet methods\<close>

text \<open>
  Modelled from the spec: the class \<^verbatim>\<open>Tablet\<close> is not part of the sources.
  \<^verbatim>\<open>equal\<close> compares the identity \<open>(tablet_id, schema_hash)\<close> of the tablet; the
  setters overwrite the attribute they name and \<^verbatim>\<open>delete_alter_task\<close> clears the
  alter task.
\<close>

definition equal :: "Tablet \<Rightarrow> int \<Rightarrow> int \<Rightarrow> bool" where
  "equal t tid sh = (tablet_id t = tid \<and> schema_hash t = sh)"

definition set_tablet_state :: "TabletState \<Rightarrow> Tablet \<Rightarrow> Tablet" where
  "set_tablet_state st t = t\<lparr>tablet_state := st\<rparr>"

definition delete_alter_task :: "Tablet \<Rightarrow> Tablet" where
  "delete_alter_task t = t\<lparr>alter_task := None\<rparr>"

definition set_creation_time :: "64 word \<Rightarrow> Tablet \<Rightarrow> Tablet" where
  "set_creation_time c t = t\<lparr>creation_time := c\<rparr>"

definition set_cumulative_layer_point :: "64 word \<Rightarrow> Tablet \<Rightarrow> Tablet" where
  "set_cumulative_layer_point p t = t\<lparr>cumulative_layer_point := p\<rparr>"

text \<open>
  Modelled from the spec: \<^verbatim>\<open>Tablet::rowset_with_max_version\<close> is not in the sources;
  it is the latest rowset by \<open>end_version\<close>, null for a tablet without rowsets.
\<close>

fun max_version_rowset :: "Rowset list \<Rightarrow> Rowset option" where
  "max_version_rowset [] = None"
| "max_version_rowset (r # rs) =
     (case max_version_rowset rs of
        None \<Rightarrow> Some r
      | Some r' \<Rightarrow> if sint (end_version r) < sint (end_version r') then Some r' else Some r)"

definition rowset_with_max_version :: "Tablet \<Rightarrow> Rowset option" where
  "rowset_with_max_version t = max_version_rowset (rowsets t)"

text \<open>
  Modelled from the spec: \<^verbatim>\<open>Tablet::max_version\<close> is not in the sources; it is the
  version of that rowset, and starts at \<open>-1\<close> when the tablet has no version.
\<close>

definition max_version :: "Tablet \<Rightarrow> 64 word \<times> 64 word" where
  "max_version t = (case rowset_with_max_version t of None \<Rightarrow> (-1, 0) | Some r \<Rightarrow> version r)"

text \<open>
  Modelled from the spec: \<^verbatim>\<open>Tablet::add_rowset\<close> is not in the sources; when it
  succeeds the rowset has been added to the tablet.
\<close>

definition add_rowset :: "collab \<Rightarrow> Tablet \<Rightarrow> Rowset \<Rightarrow> OLAPStatus \<times> Tablet" where
  "add_rowset env t r =
     (let res = add_rowset_status env t r
      in if res = OLAP_SUCCESS then (res, t\<lparr>rowsets := rowsets t @ [r]\<rparr>) else (res, t))"

definition meta_key :: "Tablet \<Rightarrow> string \<times> int \<times> int" where
  "meta_key t = (data_dir t, tablet_id t, schema_hash t)"

text \<open>
  Modelled from the spec: \<^verbatim>\<open>Tablet::save_meta\<close> and \<^verbatim>\<open>TabletMetaManager\<close> are not
  part of the sources. A save that succeeds stores the meta of the tablet in the durable
  store under \<open>(data_dir, tablet_id, schema_hash)\<close>; a save that fails leaves the store as
  it is; \<^verbatim>\<open>remove\<close> deletes the entry of a key.
\<close>

definition save_meta :: "collab \<Rightarrow> engine \<Rightarrow> Tablet \<Rightarrow> OLAPStatus \<times> engine" where
  "save_meta env s t =
     (let res = tablet_save_meta env t
      in if res = OLAP_SUCCESS then (res, s\<lparr>meta_store := (meta_store s)(meta_key t \<mapsto> t)\<rparr>)
         else (res, s))"

definition TabletMetaManager_save :: "collab \<Rightarrow> engine \<Rightarrow> Tablet \<Rightarrow> OLAPStatus \<times> engine" where
  "TabletMetaManager_save env s t =
     (let res = meta_manager_save env t
      in if res = OLAP_SUCCESS then (res, s\<lparr>meta_store := (meta_store s)(meta_key t \<mapsto> t)\<rparr>)
         else (res, s))"

definition TabletMetaManager_remove :: "engine \<Rightarrow> string \<Rightarrow> int \<Rightarrow> int \<Rightarrow> engine" where
  "TabletMetaManager_remove s d tid sh = s\<lparr>meta_store := (meta_store s)((d, tid, sh) := None)\<rparr>"

text \<open>
  \<^verbatim>\<open>DataDir::register_tablet\<close> and \<^verbatim>\<open>DataDir::deregister_tablet\<close> (data_dir.cpp)
  insert and erase the identity of the tablet in the tablet set of the directory and always
  return \<open>OLAP_SUCCESS\<close>. The tablet's \<^verbatim>\<open>register_tablet_into_dir\<close> and
  \<^verbatim>\<open>deregister_tablet_from_dir\<close> are these calls on its own data directory.
\<close>

definition register_tablet_into_dir :: "engine \<Rightarrow> Tablet \<Rightarrow> OLAPStatus \<times> engine" where
  "register_tablet_into_dir s t =
     (OLAP_SUCCESS,
      s\<lparr>tablet_set := (tablet_set s)
           (data_dir t := insert (tablet_id t, schema_hash t) (tablet_set s (data_dir t)))\<rparr>)"

definition deregister_tablet_from_dir :: "engine \<Rightarrow> Tablet \<Rightarrow> OLAPStatus \<times> engine" where
  "deregister_tablet_from_dir s t =
     (OLAP_SUCCESS,
      s\<lparr>tablet_set := (tablet_set s)
           (data_dir t := tablet_set s (data_dir t) - {(tablet_id t, schema_hash t)})\<rparr>)"

subsection \<open>Lookup\<close>

definition get_tablet_with_no_lock :: "engine \<Rightarrow> int \<Rightarrow> int \<Rightarrow> Tablet option" where
  "get_tablet_with_no_lock s tid sh =
     (case map_of (tablet_map s) tid of
        None \<Rightarrow> None
      | Some arr \<Rightarrow> find (\<lambda>t. equal t tid sh) arr)"

definition check_tablet_id_exist_unlock :: "engine \<Rightarrow> int \<Rightarrow> bool" where
  "check_tablet_id_exist_unlock s tid =
     (case map_of (tablet_map s) tid of None \<Rightarrow> False | Some arr \<Rightarrow> length arr \<noteq> 0)"

definition get_tablet :: "collab \<Rightarrow> engine \<Rightarrow> int \<Rightarrow> int \<Rightarrow> bool \<Rightarrow> Tablet option" where
  "get_tablet env s tid sh include_deleted =
     (let tablet = get_tablet_with_no_lock s tid sh;
          tablet = (if tablet = None \<and> include_deleted
                    then find (\<lambda>d. tablet_id d = tid \<and> schema_hash d = sh) (shutdown_tablets s)
                    else tablet)
      in case tablet of
           None \<Rightarrow> None
         | Some t \<Rightarrow> if \<not> is_used env t then None else Some t)"

subsection \<open>Drop\<close>

text \<open>
  The loop of \<^verbatim>\<open>_drop_tablet_directly_unlocked\<close> over the bucket. Every matching
  instance is erased from the list; unless the files are kept it is set to
  \<open>TABLET_SHUTDOWN\<close>, its meta is saved and it is pushed onto the shutdown queue. A
  failed save returns at once: the instance is already erased, the rest of the list stays.
  The result is the status, the list that remains, and the state with its store and queue.
\<close>

fun drop_loop :: "collab \<Rightarrow> int \<Rightarrow> int \<Rightarrow> bool \<Rightarrow> Tablet list \<Rightarrow> engine
    \<Rightarrow> OLAPStatus \<times> Tablet list \<times> engine" where
  "drop_loop env tid sh keep_files [] s = (OLAP_SUCCESS, [], s)"
| "drop_loop env tid sh keep_files (t # ts) s =
     (if equal t tid sh then
        (if \<not> keep_files then
           (case save_meta env s (set_tablet_state TABLET_SHUTDOWN t) of
              (res, s') \<Rightarrow>
                if res \<noteq> OLAP_SUCCESS then (res, ts, s')
                else drop_loop env tid sh keep_files ts
                       (s'\<lparr>shutdown_tablets :=
                            shutdown_tablets s' @ [set_tablet_state TABLET_SHUTDOWN t]\<rparr>))
         else drop_loop env tid sh keep_files ts s)
      else (case drop_loop env tid sh keep_files ts s of
              (res, ts', s') \<Rightarrow> (res, t # ts', s')))"

definition drop_tablet_directly_unlocked :: "collab \<Rightarrow> engine \<Rightarrow> int \<Rightarrow> int \<Rightarrow> bool
    \<Rightarrow> OLAPStatus \<times> engine" where
  "drop_tablet_directly_unlocked env s tid sh keep_files =
     (case get_tablet_with_no_lock s tid sh of
        None \<Rightarrow> (OLAP_ERR_TABLE_NOT_FOUND, s)
      | Some dropped_tablet \<Rightarrow>
          (case drop_loop env tid sh keep_files (table_arr (tablet_map s) tid) s of
             (res, arr, s1) \<Rightarrow>
               let s2 = s1\<lparr>tablet_map := tm_put tid arr (tablet_map s1)\<rparr>
               in if res \<noteq> OLAP_SUCCESS then (res, s2)
                  else
                    let s3 = (if table_arr (tablet_map s2) tid = []
                              then s2\<lparr>tablet_map := tm_erase tid (tablet_map s2)\<rparr> else s2)
                    in deregister_tablet_from_dir s3 dropped_tablet))"

text \<open>A mutation of a registered tablet through its shared pointer.\<close>

fun update_first :: "('a \<Rightarrow> bool) \<Rightarrow> ('a \<Rightarrow> 'a) \<Rightarrow> 'a list \<Rightarrow> 'a list" where
  "update_first P f [] = []"
| "update_first P f (x # xs) = (if P x then f x # xs else x # update_first P f xs)"

definition update_registered :: "engine \<Rightarrow> int \<Rightarrow> int \<Rightarrow> (Tablet \<Rightarrow> Tablet) \<Rightarrow> engine" where
  "update_registered s tid sh f =
     (case map_of (tablet_map s) tid of
        None \<Rightarrow> s
      | Some arr \<Rightarrow>
          s\<lparr>tablet_map := tm_put tid (update_first (\<lambda>t. equal t tid sh) f arr) (tablet_map s)\<rparr>)"

definition drop_tablet_unlock :: "collab \<Rightarrow> engine \<Rightarrow> int \<Rightarrow> int \<Rightarrow> bool
    \<Rightarrow> (OLAPStatus \<times> engine) option" where
  "drop_tablet_unlock env s tid sh keep_files =
     (case get_tablet_with_no_lock s tid sh of
        None \<Rightarrow> Some (OLAP_SUCCESS, s)
      | Some dropped_tablet \<Rightarrow>
          (case alter_task dropped_tablet of
             None \<Rightarrow> Some (drop_tablet_directly_unlocked env s tid sh keep_files)
           | Some task \<Rightarrow>
               let is_schema_change_finished = (\<not> alter_state task \<noteq> ALTER_FINISHED)
               in case get_tablet_with_no_lock s (related_tablet_id task) (related_schema_hash task) of
                    None \<Rightarrow> Some (drop_tablet_directly_unlocked env s tid sh keep_files)
                  | Some related_tablet \<Rightarrow>
                      let is_drop_base_tablet =
                            (sint (creation_time dropped_tablet) < sint (creation_time related_tablet))
                      in if is_drop_base_tablet \<and> \<not> is_schema_change_finished
                         then Some (OLAP_ERR_PREVIOUS_SCHEMA_CHANGE_NOT_FINISHED, s)
                         else
                           let s1 = update_registered s (related_tablet_id task)
                                      (related_schema_hash task) delete_alter_task
                           in case save_meta env s1 (delete_alter_task related_tablet) of
                                (res, s2) \<Rightarrow>
                                  if res \<noteq> OLAP_SUCCESS then None
                                  else Some (drop_tablet_directly_unlocked env s2 tid sh keep_files)))"

definition drop_tablet :: "collab \<Rightarrow> engine \<Rightarrow> int \<Rightarrow> int \<Rightarrow> bool \<Rightarrow> (OLAPStatus \<times> engine) option" where
  "drop_tablet env s tid sh keep_files = drop_tablet_unlock env s tid sh keep_files"

fun drop_tablets_on_error_loop :: "engine \<Rightarrow> TabletInfo list \<Rightarrow> engine" where
  "drop_tablets_on_error_loop s [] = s"
| "drop_tablets_on_error_loop s (tablet_info # infos) =
     (let tid = info_tablet_id tablet_info; sh = info_schema_hash tablet_info
      in case get_tablet_with_no_lock s tid sh of
           None \<Rightarrow> drop_tablets_on_error_loop s infos
         | Some dropped_tablet \<Rightarrow>
             let arr = filter (\<lambda>t. \<not> equal t tid sh) (table_arr (tablet_map s) tid);
                 m = tm_put tid arr (tablet_map s);
                 m' = (if arr = [] then tm_erase tid m else m)
             in drop_tablets_on_error_loop (s\<lparr>tablet_map := m'\<rparr>) infos)"

definition drop_tablets_on_error_root_path :: "engine \<Rightarrow> TabletInfo list \<Rightarrow> OLAPStatus \<times> engine" where
  "drop_tablets_on_error_root_path s tablet_info_vec =
     (OLAP_SUCCESS, drop_tablets_on_error_loop s tablet_info_vec)"

subsection \<open>Add\<close>

text \<open>
  \<^verbatim>\<open>std::list::sort\<close> with \<^verbatim>\<open>_sort_tablet_by_creation_time\<close> is a stable sort by
  the signed creation time.
\<close>

definition sort_by_creation_time :: "Tablet list \<Rightarrow> Tablet list" where
  "sort_by_creation_time arr = sort_key (\<lambda>t. sint (creation_time t)) arr"

text \<open>
  \<^verbatim>\<open>_add_tablet_to_map\<close>: save the meta if asked to, drop the old instance if asked
  to, register the tablet with its data directory, push it onto the bucket and sort the
  bucket. The first step that fails returns its status.
\<close>

definition add_tablet_to_map :: "collab \<Rightarrow> engine \<Rightarrow> int \<Rightarrow> int \<Rightarrow> Tablet \<Rightarrow> bool \<Rightarrow> bool \<Rightarrow> bool
    \<Rightarrow> (OLAPStatus \<times> engine) option" where
  "add_tablet_to_map env s tid sh tablet update_meta keep_files drop_old =
     (case (if update_meta then TabletMetaManager_save env s tablet else (OLAP_SUCCESS, s)) of
        (res, s1) \<Rightarrow>
          if res \<noteq> OLAP_SUCCESS then Some (res, s1)
          else
            (case (if drop_old then drop_tablet_unlock env s1 tid sh keep_files
                   else Some (OLAP_SUCCESS, s1)) of
               None \<Rightarrow> None
             | Some (res, s2) \<Rightarrow>
                 if res \<noteq> OLAP_SUCCESS then Some (res, s2)
                 else
                   (case register_tablet_into_dir s2 tablet of
                      (res, s3) \<Rightarrow>
                        if res \<noteq> OLAP_SUCCESS then Some (res, s3)
                        else
                          Some (res,
                            s3\<lparr>tablet_map :=
                                 tm_put tid
                                   (sort_by_creation_time (table_arr (tablet_map s3) tid @ [tablet]))
                                   (tablet_map s3)\<rparr>))))"

text \<open>
  \<^verbatim>\<open>_add_tablet_unlock\<close>. The search loop reads \<^verbatim>\<open>_tablet_map[tablet_id]\<close>, which
  creates the bucket of a new tablet id. Two data directories are the same when they are
  the same \<^verbatim>\<open>DataDir\<close> object. An incoming tablet without any rowset, next to an
  existing instance, ends in \<^verbatim>\<open>LOG(FATAL)\<close>. The code stores the two end versions
  in \<^verbatim>\<open>int32_t\<close> locals and the two times in \<^verbatim>\<open>int64_t\<close> locals before it
  compares them: \<open>int32_of\<close> is the conversion to \<^verbatim>\<open>int32_t\<close>, which keeps the low
  32 bits.
\<close>

definition int32_of :: "64 word \<Rightarrow> 32 word" where
  "int32_of w = word_of_int (sint w)"

definition add_tablet_unlock :: "collab \<Rightarrow> engine \<Rightarrow> int \<Rightarrow> int \<Rightarrow> Tablet \<Rightarrow> bool \<Rightarrow> bool
    \<Rightarrow> (OLAPStatus \<times> engine) option" where
  "add_tablet_unlock env s0 tid sh tablet update_meta force =
     (let s = s0\<lparr>tablet_map := tm_index tid (tablet_map s0)\<rparr>
      in case find (\<lambda>item. equal item tid sh) (table_arr (tablet_map s) tid) of
           None \<Rightarrow> add_tablet_to_map env s tid sh tablet update_meta False False
         | Some table_item \<Rightarrow>
             if \<not> force \<and> tablet_path table_item = tablet_path tablet
             then Some (OLAP_ERR_ENGINE_INSERT_EXISTS_TABLE, s)
             else if \<not> force \<and> data_dir table_item = data_dir tablet
             then Some (OLAP_ERR_ENGINE_INSERT_EXISTS_TABLE, s)
             else
               (case rowset_with_max_version tablet of
                  None \<Rightarrow> None
                | Some new_rowset \<Rightarrow>
                    let old_rowset = rowset_with_max_version table_item;
                        old_time = (case old_rowset of None \<Rightarrow> -1 | Some r \<Rightarrow> rs_creation_time r);
                        new_time = rs_creation_time new_rowset;
                        old_version = (case old_rowset of None \<Rightarrow> -1
                                       | Some r \<Rightarrow> int32_of (end_version r));
                        new_version = int32_of (end_version new_rowset);
                        keep_files = (if force then True else False)
                    in if force \<or> (sint old_version < sint new_version
                          \<or> (new_version = old_version \<and> sint old_time < sint new_time))
                       then add_tablet_to_map env s tid sh tablet update_meta keep_files True
                       else Some (OLAP_ERR_ENGINE_INSERT_EXISTS_TABLE, s)))"

subsection \<open>The alpha rowset writer\<close>

text \<open>
  The writer keeps its context, the pointer to the rowset meta it fills, and one row count
  for each segment group it has opened (\<^verbatim>\<open>_init\<close> opens one). The constructor sets
  the pointer \<^verbatim>\<open>_current_rowset_meta\<close> to null, which is \<open>None\<close>, and nothing in
  the writer assigns it afterwards. \<^verbatim>\<open>init\<close> and \<^verbatim>\<open>build\<close> dereference the
  pointer: on a null pointer the process ends there, and the call has no result.
\<close>

record AlphaRowsetWriter =
  rowset_writer_context :: RowsetWriterContext
  current_rowset_meta :: "Rowset option"
  is_pending_rowset :: bool
  segment_groups :: "nat list"

definition AlphaRowsetWriter_new :: "collab \<Rightarrow> AlphaRowsetWriter" where
  "AlphaRowsetWriter_new env =
     \<lparr>rowset_writer_context = default_context env,
      current_rowset_meta = None,
      is_pending_rowset = False,
      segment_groups = []\<rparr>"

definition writer_open_segment_group :: "AlphaRowsetWriter \<Rightarrow> AlphaRowsetWriter" where
  "writer_open_segment_group w = w\<lparr>segment_groups := segment_groups w @ [0]\<rparr>"

definition writer_init :: "AlphaRowsetWriter \<Rightarrow> RowsetWriterContext
    \<Rightarrow> (OLAPStatus \<times> AlphaRowsetWriter) option" where
  "writer_init w c =
     (case current_rowset_meta w of
        None \<Rightarrow> None
      | Some m0 \<Rightarrow>
          let m = m0\<lparr>rowset_id := ctx_rowset_id c,
                     rs_tablet_id := ctx_tablet_id c,
                     rs_tablet_schema_hash := ctx_tablet_schema_hash c,
                     rowset_type := ctx_rowset_type c,
                     rowset_state := ctx_rowset_state c,
                     rowset_path := ctx_rowset_path_prefix c\<rparr>;
              pending = (if ctx_rowset_state c = PREPARING \<or> ctx_rowset_state c = COMMITTED
                         then True else is_pending_rowset w);
              m' = (if pending then m\<lparr>txn_id := ctx_txn_id c, load_id := ctx_load_id c\<rparr>
                    else m\<lparr>version := ctx_version c, version_hash := ctx_version_hash c\<rparr>)
          in Some (OLAP_SUCCESS,
                   writer_open_segment_group
                     (w\<lparr>rowset_writer_context := c, current_rowset_meta := Some m',
                        is_pending_rowset := pending\<rparr>)))"

definition writer_flush :: "AlphaRowsetWriter \<Rightarrow> OLAPStatus \<times> AlphaRowsetWriter" where
  "writer_flush w = (OLAP_SUCCESS, writer_open_segment_group w)"

definition writer_build :: "AlphaRowsetWriter \<Rightarrow> Rowset option" where
  "writer_build w =
     (case current_rowset_meta w of
        None \<Rightarrow> None
      | Some m \<Rightarrow> Some (m\<lparr>segment_group_rows := segment_groups w\<rparr>))"

subsection \<open>Create\<close>

text \<open>
  \<^verbatim>\<open>_create_inital_rowset\<close>. The result is the status, the tablet as the call leaves
  it, and the state (the meta store is written by \<^verbatim>\<open>save_meta\<close>); there is no result
  when the writer ends the process. The status of the writer's \<^verbatim>\<open>init\<close> is dropped,
  as in the code. The request's version is a signed machine integer, and
  \<^verbatim>\<open>request.version + 1\<close> is computed on it. Handing a failed rowset to the engine's
  unused-rowset list is outside the state.
\<close>

definition create_inital_rowset :: "collab \<Rightarrow> engine \<Rightarrow> Tablet \<Rightarrow> TCreateTabletReq
    \<Rightarrow> (OLAPStatus \<times> Tablet \<times> engine) option" where
  "create_inital_rowset env s tablet request =
     (if sint (req_version request) < 1 then Some (OLAP_ERR_CE_CMD_PARAMS_ERROR, tablet, s)
      else
        let version = (0, req_version request)
        in case (if sint (fst version) > sint (snd version)
                 then Some (OLAP_ERR_INPUT_PARAMETER_ERROR, tablet)
                 else
                   (case next_rowset_id env tablet of
                      (st, rid) \<Rightarrow>
                        if st \<noteq> OLAP_SUCCESS then Some (st, tablet)
                        else
                          let context = (default_context env)
                                \<lparr>ctx_rowset_id := rid,
                                 ctx_tablet_id := tablet_id tablet,
                                 ctx_partition_id := partition_id tablet,
                                 ctx_tablet_schema_hash := schema_hash tablet,
                                 ctx_rowset_type := ALPHA_ROWSET,
                                 ctx_rowset_path_prefix := tablet_path tablet,
                                 ctx_rowset_state := VISIBLE,
                                 ctx_data_dir := data_dir tablet,
                                 ctx_version := version,
                                 ctx_version_hash := req_version_hash request\<rparr>
                          in case writer_init (AlphaRowsetWriter_new env) context of
                               None \<Rightarrow> None
                             | Some (init_status, builder) \<Rightarrow>
                                 (case writer_flush builder of
                                    (res, builder') \<Rightarrow>
                                      if OLAP_SUCCESS \<noteq> res then Some (res, tablet)
                                      else
                                        (case writer_build builder' of
                                           None \<Rightarrow> None
                                         | Some new_rowset \<Rightarrow>
                                             Some (add_rowset env tablet new_rowset))))) of
             None \<Rightarrow> None
           | Some (res, tablet') \<Rightarrow>
               if res \<noteq> OLAP_SUCCESS then Some (res, tablet', s)
               else
                 let tablet'' = set_cumulative_layer_point (req_version request + 1) tablet'
                 in case save_meta env s tablet'' of (res, s') \<Rightarrow> Some (res, tablet'', s'))"

text \<open>
  \<^verbatim>\<open>_create_tablet_meta\<close> and \<^verbatim>\<open>_create_tablet_meta_and_dir\<close>: the first data
  directory that gives a shard and a directory gets the tablet; a directory that fails is
  skipped. The assignment of column unique ids is left out. \<^verbatim>\<open>TabletMeta::create\<close>
  and \<^verbatim>\<open>Tablet::create_tablet_from_meta\<close> are not part of the sources: the new tablet
  is the parameter \<open>tablet_template\<close> (which carries the creation time read from the
  clock) with the identity and partition of the request, the directory and the path.
\<close>

fun create_tablet_meta_and_dir :: "collab \<Rightarrow> TCreateTabletReq \<Rightarrow> string list \<Rightarrow> Tablet option" where
  "create_tablet_meta_and_dir env request [] = None"
| "create_tablet_meta_and_dir env request (d # data_dirs) =
     (case get_shard env d of
        (res, shard_id) \<Rightarrow>
          if res \<noteq> OLAP_SUCCESS then create_tablet_meta_and_dir env request data_dirs
          else
            let dir = schema_hash_dir env d shard_id (req_tablet_id request) (req_schema_hash request)
            in if \<not> check_dir_existed env dir \<and> create_dirs env dir \<noteq> OLAP_SUCCESS
               then create_tablet_meta_and_dir env request data_dirs
               else Some ((tablet_template env)
                            \<lparr>tablet_id := req_tablet_id request,
                             schema_hash := req_schema_hash request,
                             partition_id := req_partition_id request,
                             tablet_path := dir,
                             data_dir := d\<rparr>))"

text \<open>
  Modelled from the spec: \<^verbatim>\<open>Tablet::init\<close> is not part of the sources; a successful
  call leaves the tablet initialised.
\<close>

definition init_tablet :: "collab \<Rightarrow> Tablet \<Rightarrow> OLAPStatus \<times> Tablet" where
  "init_tablet env t =
     (let res = tablet_init env t
      in if res = OLAP_SUCCESS then (res, t\<lparr>init_succeeded := True\<rparr>) else (res, t))"

text \<open>
  The \<^verbatim>\<open>do { ... } while (0)\<close> block of \<^verbatim>\<open>_internal_create_tablet\<close>: status, the
  tablet, \<^verbatim>\<open>is_tablet_added\<close> and the state; \<open>None\<close> when the process is aborted or
  the null \<^verbatim>\<open>ref_tablet\<close> of a schema change is dereferenced.
\<close>

definition internal_create_block :: "collab \<Rightarrow> engine \<Rightarrow> TCreateTabletReq \<Rightarrow> bool \<Rightarrow> Tablet option
    \<Rightarrow> Tablet \<Rightarrow> (OLAPStatus \<times> Tablet \<times> bool \<times> engine) option" where
  "internal_create_block env s request is_schema_change_tablet ref_tablet tablet0 =
     (case init_tablet env tablet0 of
        (res, tablet1) \<Rightarrow>
          if res \<noteq> OLAP_SUCCESS then Some (res, tablet1, False, s)
          else
            (case (if \<not> is_schema_change_tablet
                   then create_inital_rowset env s tablet1 request
                   else (case ref_tablet of
                           None \<Rightarrow> None
                         | Some r \<Rightarrow>
                             if sint (creation_time tablet1) \<le> sint (creation_time r)
                             then Some (OLAP_SUCCESS,
                                        set_creation_time (creation_time r + 1) tablet1, s)
                             else Some (OLAP_SUCCESS, tablet1, s))) of
               None \<Rightarrow> None
             | Some (res, tablet, s1) \<Rightarrow>
                 if res \<noteq> OLAP_SUCCESS then Some (res, tablet, False, s1)
                 else
                   (case add_tablet_unlock env s1 (req_tablet_id request) (req_schema_hash request)
                           tablet True False of
                      None \<Rightarrow> None
                    | Some (res, s2) \<Rightarrow>
                        if res \<noteq> OLAP_SUCCESS then Some (res, tablet, False, s2)
                        else
                          (case get_tablet_with_no_lock s2 (req_tablet_id request)
                                  (req_schema_hash request) of
                             None \<Rightarrow> Some (OLAP_ERR_TABLE_NOT_FOUND, tablet, True, s2)
                           | Some tablet_ptr \<Rightarrow> Some (OLAP_SUCCESS, tablet, True, s2)))))"

definition internal_create_tablet :: "collab \<Rightarrow> engine \<Rightarrow> TCreateTabletReq \<Rightarrow> bool \<Rightarrow> Tablet option
    \<Rightarrow> string list \<Rightarrow> (Tablet option \<times> engine) option" where
  "internal_create_tablet env s request is_schema_change_tablet ref_tablet data_dirs =
     (case get_tablet_with_no_lock s (req_tablet_id request) (req_schema_hash request) of
        Some checked_tablet \<Rightarrow> Some (None, s)
      | None \<Rightarrow>
          (case create_tablet_meta_and_dir env request data_dirs of
             None \<Rightarrow> Some (None, s)
           | Some tablet0 \<Rightarrow>
               (case internal_create_block env s request is_schema_change_tablet ref_tablet tablet0 of
                  None \<Rightarrow> None
                | Some (res, tablet, is_tablet_added, s1) \<Rightarrow>
                    if res \<noteq> OLAP_SUCCESS then
                      (if is_tablet_added then
                         (case drop_tablet_unlock env s1 (req_tablet_id request)
                                 (req_schema_hash request) False of
                            None \<Rightarrow> None
                          | Some (status, s2) \<Rightarrow> Some (None, s2))
                       else Some (None, TabletMetaManager_remove s1 (data_dir tablet)
                                          (req_tablet_id request) (req_schema_hash request)))
                    else Some (Some tablet, s1))))"

definition create_tablet :: "collab \<Rightarrow> engine \<Rightarrow> TCreateTabletReq \<Rightarrow> string list
    \<Rightarrow> (OLAPStatus \<times> engine) option" where
  "create_tablet env s request stores =
     (if check_tablet_id_exist_unlock s (req_tablet_id request) then
        (case get_tablet_with_no_lock s (req_tablet_id request) (req_schema_hash request) of
           Some tablet \<Rightarrow> Some (OLAP_SUCCESS, s)
         | None \<Rightarrow> Some (OLAP_ERR_CE_TABLET_ID_EXIST, s))
      else
        (case internal_create_tablet env s request False None stores of
           None \<Rightarrow> None
         | Some (None, s') \<Rightarrow> Some (OLAP_ERR_CE_CMD_PARAMS_ERROR, s')
         | Some (Some tablet, s') \<Rightarrow> Some (OLAP_SUCCESS, s')))"

text \<open>The schema-change entry point: the overload of \<^verbatim>\<open>create_tablet\<close> with a \<^verbatim>\<open>ref_tablet\<close>.\<close>

definition create_tablet_schema_change :: "collab \<Rightarrow> engine \<Rightarrow> TCreateTabletReq \<Rightarrow> bool
    \<Rightarrow> Tablet option \<Rightarrow> string list \<Rightarrow> (Tablet option \<times> engine) option" where
  "create_tablet_schema_change env s request is_schema_change_tablet ref_tablet data_dirs =
     internal_create_tablet env s request is_schema_change_tablet ref_tablet data_dirs"

subsection \<open>Load\<close>

text \<open>
  Modelled from the spec: \<^verbatim>\<open>Tablet::create_tablet_from_meta\<close> is not part of the
  sources; it constructs the tablet from the deserialised meta on the given data directory.
\<close>

definition create_tablet_from_meta :: "Tablet \<Rightarrow> string \<Rightarrow> Tablet" where
  "create_tablet_from_meta tablet_meta d = tablet_meta\<lparr>data_dir := d\<rparr>"

definition load_tablet_from_meta :: "collab \<Rightarrow> engine \<Rightarrow> string \<Rightarrow> int \<Rightarrow> int \<Rightarrow> string \<Rightarrow> bool \<Rightarrow> bool
    \<Rightarrow> (OLAPStatus \<times> engine) option" where
  "load_tablet_from_meta env s d tid sh meta_binary update_meta force =
     (case deserialize env meta_binary of
        None \<Rightarrow> Some (OLAP_ERR_HEADER_PB_PARSE_FAILED, s)
      | Some tablet_meta \<Rightarrow>
          let tablet = create_tablet_from_meta tablet_meta d
          in if tablet_state tablet_meta = TABLET_SHUTDOWN
             then Some (OLAP_ERR_TABLE_ALREADY_DELETED_ERROR,
                        s\<lparr>shutdown_tablets := shutdown_tablets s @ [tablet]\<rparr>)
             else if fst (max_version tablet) = -1 \<and> alter_task tablet = None
             then Some (OLAP_ERR_TABLE_INDEX_VALIDATE_ERROR, s)
             else
               (case init_tablet env tablet of
                  (res, tablet') \<Rightarrow>
                    if res \<noteq> OLAP_SUCCESS then Some (res, s)
                    else add_tablet_unlock env s tid sh tablet' update_meta force))"

subsection \<open>Compaction candidate\<close>

definition compaction_skipped :: "engine \<Rightarrow> Tablet \<Rightarrow> bool" where
  "compaction_skipped s table_ptr =
     ((case alter_task table_ptr of
         None \<Rightarrow> False
       | Some cur_alter_task \<Rightarrow>
           alter_state cur_alter_task \<noteq> ALTER_FINISHED \<and> alter_state cur_alter_task \<noteq> ALTER_FAILED
           \<and> (case get_tablet_with_no_lock s (related_tablet_id cur_alter_task)
                      (related_schema_hash cur_alter_task) of
                None \<Rightarrow> False
              | Some related_tablet \<Rightarrow>
                  sint (creation_time related_tablet) < sint (creation_time table_ptr)))
      \<or> \<not> init_succeeded table_ptr \<or> \<not> can_do_compaction table_ptr)"

definition table_score :: "CompactionType \<Rightarrow> Tablet \<Rightarrow> 32 word" where
  "table_score compaction_type table_ptr =
     (case compaction_type of
        BASE_COMPACTION \<Rightarrow> calc_base_compaction_score table_ptr
      | CUMULATIVE_COMPACTION \<Rightarrow> calc_cumulative_compaction_score table_ptr)"

text \<open>The two nested loops visit the buckets in key order and each bucket in list order.\<close>

fun best_tablet_loop :: "engine \<Rightarrow> CompactionType \<Rightarrow> Tablet list \<Rightarrow> 32 word \<times> Tablet option
    \<Rightarrow> 32 word \<times> Tablet option" where
  "best_tablet_loop s compaction_type [] acc = acc"
| "best_tablet_loop s compaction_type (table_ptr # rest) (highest_score, best_tablet) =
     (if compaction_skipped s table_ptr
      then best_tablet_loop s compaction_type rest (highest_score, best_tablet)
      else if highest_score < table_score compaction_type table_ptr
      then best_tablet_loop s compaction_type rest
             (table_score compaction_type table_ptr, Some table_ptr)
      else best_tablet_loop s compaction_type rest (highest_score, best_tablet))"

definition visited_tablets :: "engine \<Rightarrow> Tablet list" where
  "visited_tablets s = concat (map snd (tablet_map s))"

definition find_best_tablet_to_compaction :: "engine \<Rightarrow> CompactionType \<Rightarrow> Tablet option" where
  "find_best_tablet_to_compaction s compaction_type =
     snd (best_tablet_loop s compaction_type (visited_tablets s) (0, None))"

subsection \<open>Notions used to state the properties\<close>

text \<open>
  An instance is registered under \<open>(tid, sh)\<close> when the bucket of \<open>tid\<close> holds a
  tablet that \<^verbatim>\<open>equal(tid, sh)\<close> accepts: this is what every lookup of the code sees.
\<close>

definition registered :: "engine \<Rightarrow> int \<Rightarrow> int \<Rightarrow> bool" where
  "registered s tid sh = (\<exists>t \<in> set (table_arr (tablet_map s) tid). equal t tid sh)"

definition matching_instances :: "engine \<Rightarrow> int \<Rightarrow> int \<Rightarrow> Tablet list" where
  "matching_instances s tid sh = filter (\<lambda>t. equal t tid sh) (table_arr (tablet_map s) tid)"

text \<open>An instance is listed when one of the given identities selects it in the bucket \<open>k\<close>.\<close>

definition listed :: "TabletInfo list \<Rightarrow> int \<Rightarrow> Tablet \<Rightarrow> bool" where
  "listed infos k t = (\<exists>i \<in> set infos. info_tablet_id i = k \<and> equal t k (info_schema_hash i))"

text \<open>The instances the compaction chooser does not skip, in the order it visits them.\<close>

definition compaction_candidates :: "engine \<Rightarrow> Tablet list" where
  "compaction_candidates s = filter (\<lambda>t. \<not> compaction_skipped s t) (visited_tablets s)"

text \<open>
  The condition of \<^verbatim>\<open>_add_tablet_unlock\<close> for replacing an existing instance, as
  integers: times of the latest rowsets and their end versions as the \<^verbatim>\<open>int32_t\<close>
  locals of the code hold them, \<open>-1\<close> for an existing instance without rowset.
  \<open>stored_replace_condition\<close> is the same condition on the end versions as the rowsets
  store them, and \<open>fits_int32\<close> says that an end version is not changed by the
  conversion. Two tablets are in the same place when their paths or their data directories
  agree.
\<close>

definition replace_condition :: "bool \<Rightarrow> Rowset option \<Rightarrow> Rowset \<Rightarrow> bool" where
  "replace_condition force old_rowset new_rowset =
     (let old_version = (case old_rowset of None \<Rightarrow> -1
                         | Some r \<Rightarrow> sint (int32_of (end_version r)));
          old_time = (case old_rowset of None \<Rightarrow> -1 | Some r \<Rightarrow> sint (rs_creation_time r));
          new_version = sint (int32_of (end_version new_rowset));
          new_time = sint (rs_creation_time new_rowset)
      in force \<or> new_version > old_version \<or> (new_version = old_version \<and> new_time > old_time))"

definition stored_replace_condition :: "bool \<Rightarrow> Rowset option \<Rightarrow> Rowset \<Rightarrow> bool" where
  "stored_replace_condition force old_rowset new_rowset =
     (let old_version = (case old_rowset of None \<Rightarrow> -1 | Some r \<Rightarrow> sint (end_version r));
          old_time = (case old_rowset of None \<Rightarrow> -1 | Some r \<Rightarrow> sint (rs_creation_time r));
          new_version = sint (end_version new_rowset);
          new_time = sint (rs_creation_time new_rowset)
      in force \<or> new_version > old_version \<or> (new_version = old_version \<and> new_time > old_time))"

definition fits_int32 :: "Rowset \<Rightarrow> bool" where
  "fits_int32 r = (- 2147483648 \<le> sint (end_version r) \<and> sint (end_version r) \<le> 2147483647)"

definition same_place :: "Tablet \<Rightarrow> Tablet \<Rightarrow> bool" where
  "same_place a b = (tablet_path a = tablet_path b \<or> data_dir a = data_dir b)"

text \<open>
  The invariant of the registry map: no key is bound to an empty instance sequence. A
  sequence of operations runs each operation against the collaborators as they answer at
  that time; the run has no result when an operation ends the process.
  \<open>run_statuses\<close> is the list of the statuses that the operations of a run return. The
  saves of an environment succeed when the meta store accepts every save: neither
  \<^verbatim>\<open>TabletMetaManager::save\<close> nor \<^verbatim>\<open>Tablet::save_meta\<close> fails on any tablet.
\<close>

definition registry_invariant :: "engine \<Rightarrow> bool" where
  "registry_invariant s =
     list_all (\<lambda>k. map_of (tablet_map s) k \<noteq> Some []) (map fst (tablet_map s))"

definition saves_succeed :: "collab \<Rightarrow> bool" where
  "saves_succeed env =
     (meta_manager_save env = (\<lambda>t. OLAP_SUCCESS) \<and> tablet_save_meta env = (\<lambda>t. OLAP_SUCCESS))"

datatype operation =
    Create_tablet TCreateTabletReq "string list"
  | Drop_tablet int int bool
  | Load_tablet_from_meta string int int string bool bool

fun perform :: "collab \<Rightarrow> engine \<Rightarrow> operation \<Rightarrow> (OLAPStatus \<times> engine) option" where
  "perform env s (Create_tablet request stores) = create_tablet env s request stores"
| "perform env s (Drop_tablet tid sh keep_files) = drop_tablet env s tid sh keep_files"
| "perform env s (Load_tablet_from_meta d tid sh meta_binary update_meta force) =
     load_tablet_from_meta env s d tid sh meta_binary update_meta force"

fun run :: "engine \<Rightarrow> (collab \<times> operation) list \<Rightarrow> engine option" where
  "run s [] = Some s"
| "run s ((env, operation) # ops) =
     (case perform env s operation of
        None \<Rightarrow> None
      | Some (res, s') \<Rightarrow> run s' ops)"

fun run_statuses :: "engine \<Rightarrow> (collab \<times> operation) list \<Rightarrow> OLAPStatus list option" where
  "run_statuses s [] = Some []"
| "run_statuses s ((env, operation) # ops) =
     (case perform env s operation of
        None \<Rightarrow> None
      | Some (res, s') \<Rightarrow> map_option ((#) res) (run_statuses s' ops))"

subsection \<open>Example data\<close>

definition example_rowset :: "64 word \<Rightarrow> 64 word \<Rightarrow> Rowset" where
  "example_rowset v c =
     \<lparr>rowset_id = 1, rs_tablet_id = 100, rs_tablet_schema_hash = 7, rowset_type = ALPHA_ROWSET,
      rowset_state = VISIBLE, rowset_path = ''/d1/data/0/100/7'', txn_id = 0, load_id = 0,
      version = (0, v), version_hash = 0, rs_creation_time = c, segment_group_rows = []\<rparr>"

definition example_tablet :: "int \<Rightarrow> int \<Rightarrow> 64 word \<Rightarrow> Tablet" where
  "example_tablet tid sh c =
     \<lparr>tablet_id = tid, schema_hash = sh, partition_id = 1, creation_time = c,
      tablet_path = ''/d1/data/0/100/7'', data_dir = ''/d1'', tablet_state = TABLET_NORMAL,
      alter_task = None, rowsets = [example_rowset 2 c], cumulative_layer_point = 3,
      init_succeeded = True, can_do_compaction = True,
      calc_base_compaction_score = 5, calc_cumulative_compaction_score = 5\<rparr>"

definition example_env :: collab where
  "example_env =
     \<lparr>meta_manager_save = (\<lambda>t. OLAP_SUCCESS),
      tablet_save_meta = (\<lambda>t. OLAP_SUCCESS),
      tablet_init = (\<lambda>t. OLAP_SUCCESS),
      deserialize = (\<lambda>b. None),
      is_used = (\<lambda>t. True),
      get_shard = (\<lambda>d. (OLAP_SUCCESS, 0)),
      check_dir_existed = (\<lambda>p. False),
      create_dirs = (\<lambda>p. OLAP_SUCCESS),
      schema_hash_dir = (\<lambda>d shard tid sh. d @ ''/data/0/100/7''),
      tablet_template = (example_tablet 0 0 1000)\<lparr>rowsets := [], init_succeeded := False\<rparr>,
      next_rowset_id = (\<lambda>t. (OLAP_SUCCESS, 1)),
      add_rowset_status = (\<lambda>t r. OLAP_SUCCESS),
      default_context =
        \<lparr>ctx_rowset_id = 0, ctx_tablet_id = 0, ctx_partition_id = 0, ctx_tablet_schema_hash = 0,
         ctx_rowset_type = ALPHA_ROWSET, ctx_rowset_path_prefix = [], ctx_rowset_state = PREPARING,
         ctx_data_dir = [], ctx_version = (0, 0), ctx_version_hash = 0, ctx_txn_id = 0,
         ctx_load_id = 0\<rparr>\<rparr>"

definition empty_engine :: engine where
  "empty_engine =
     \<lparr>tablet_map = [], shutdown_tablets = [], meta_store = (\<lambda>k. None), tablet_set = (\<lambda>d. {})\<rparr>"

definition engine_100_7 :: engine where
  "engine_100_7 = empty_engine\<lparr>tablet_map := [(100, [example_tablet 100 7 1000])]\<rparr>"

definition example_request :: "int \<Rightarrow> int \<Rightarrow> 64 word \<Rightarrow> TCreateTabletReq" where
  "example_request tid sh v =
     \<lparr>req_tablet_id = tid, req_schema_hash = sh, req_partition_id = 1, req_version = v,
      req_version_hash = 0\<rparr>"

definition engine_shutdown_100_7 :: engine where
  "engine_shutdown_100_7 =
     empty_engine\<lparr>shutdown_tablets := [set_tablet_state TABLET_SHUTDOWN (example_tablet 100 7 1000)]\<rparr>"

definition engine_two_schemas :: engine where
  "engine_two_schemas =
     empty_engine\<lparr>tablet_map :=
       [(100, [example_tablet 100 7 1000, example_tablet 100 9 1001]),
        (200, [example_tablet 200 7 1002])]\<rparr>"

definition engine_schema_change :: engine where
  "engine_schema_change =
     empty_engine\<lparr>tablet_map :=
       [(100,
         [(example_tablet 100 7 1000)
            \<lparr>alter_task := Some \<lparr>alter_state = ALTER_RUNNING, related_tablet_id = 100,
                                 related_schema_hash = 9\<rparr>\<rparr>,
          (example_tablet 100 9 1001)
            \<lparr>alter_task := Some \<lparr>alter_state = ALTER_RUNNING, related_tablet_id = 100,
                                 related_schema_hash = 7\<rparr>\<rparr>])]\<rparr>"

definition engine_zero_score :: engine where
  "engine_zero_score =
     empty_engine\<lparr>tablet_map :=
       [(100, [(example_tablet 100 7 1000)\<lparr>calc_base_compaction_score := 0\<rparr>])]\<rparr>"

definition engine_scores_5_9_9 :: engine where
  "engine_scores_5_9_9 =
     empty_engine\<lparr>tablet_map :=
       [(100, [example_tablet 100 7 1000]),
        (200, [(example_tablet 200 7 1001)\<lparr>calc_base_compaction_score := 9\<rparr>]),
        (300, [(example_tablet 300 7 1002)\<lparr>calc_base_compaction_score := 9\<rparr>])]\<rparr>"

definition ref_tablet_max :: Tablet where
  "ref_tablet_max = example_tablet 100 7 9223372036854775807"

definition engine_ref_max :: engine where
  "engine_ref_max = empty_engine\<lparr>tablet_map := [(100, [ref_tablet_max])]\<rparr>"

definition schema_change_tablet :: "64 word \<Rightarrow> Tablet" where
  "schema_change_tablet c =
     (tablet_template example_env)
       \<lparr>tablet_id := 100, schema_hash := 9, partition_id := 1,
        tablet_path := ''/d1/data/0/100/7'', data_dir := ''/d1'',
        init_succeeded := True, creation_time := c\<rparr>"

definition incoming_tablet :: "64 word \<Rightarrow> 64 word \<Rightarrow> Tablet" where
  "incoming_tablet v c =
     (example_tablet 100 7 c)
       \<lparr>tablet_path := ''/d2/data/0/100/7'', data_dir := ''/d2'', rowsets := [example_rowset v c]\<rparr>"

definition failing_store_env :: collab where
  "failing_store_env =
     example_env\<lparr>meta_manager_save := (\<lambda>t. OLAP_ERR_IO_ERROR),
                  tablet_save_meta := (\<lambda>t. OLAP_ERR_IO_ERROR),
                  deserialize := (\<lambda>b. Some (example_tablet 100 7 1000))\<rparr>"

definition loading_env :: collab where
  "loading_env =
     example_env\<lparr>deserialize :=
       (\<lambda>b. if b = ''meta_100_7'' then Some (example_tablet 100 7 1000) else None)\<rparr>"

definition example_operations :: "(collab \<times> operation) list" where
  "example_operations =
     [(loading_env, Load_tablet_from_meta ''/d1'' 100 7 ''meta_100_7'' True False),
      (loading_env, Create_tablet (example_request 100 7 2) [''/d1'']),
      (loading_env, Create_tablet (example_request 100 9 2) [''/d1'']),
      (loading_env, Create_tablet (example_request 200 7 0) [''/d1'']),
      (loading_env, Load_tablet_from_meta ''/d1'' 100 9 ''junk'' True False),
      (loading_env, Drop_tablet 100 7 False)]"

section \<open>Properties\<close>

subsection \<open>The registry map\<close>

lemma map_of_tm_put: "map_of (tm_put k v m) = (map_of m)(k \<mapsto> v)"
  by (induction m) (auto simp: fun_eq_iff)

lemma map_of_tm_erase: "map_of (tm_erase k m) = (map_of m)(k := None)"
  by (induction m) (auto simp: tm_erase_def fun_eq_iff)

lemma tm_index_present: "map_of m k = Some b \<Longrightarrow> tm_index k m = m"
  by (simp add: tm_index_def)

lemma find_None_iff_registered:
  "get_tablet_with_no_lock s tid sh = None \<longleftrightarrow> \<not> registered s tid sh"
  by (auto simp: get_tablet_with_no_lock_def registered_def table_arr_def find_None_iff
           split: option.splits)

lemma distinct_filter_le1:
  "distinct (map f xs) \<Longrightarrow> length (filter (\<lambda>x. f x = v \<and> P x) xs) \<le> 1"
  by (induction xs) (auto simp: image_iff filter_empty_conv)

subsection \<open>Creating a tablet whose id is already registered\<close>

text \<open>
  Claim C1. A call of \<open>create_tablet\<close> made while the registry holds a non-empty bucket
  for the requested tablet id returns \<open>OLAP_SUCCESS\<close> when an instance with the requested
  schema hash is registered, and \<open>OLAP_ERR_CE_TABLET_ID_EXIST\<close> otherwise; in both cases
  the whole state is as before. When the schema hashes of the bucket are distinct, the
  registered instance with the requested identity is the only one.
\<close>

theorem create_tablet_existing:
  assumes "check_tablet_id_exist_unlock s (req_tablet_id request)"
  shows "(registered s (req_tablet_id request) (req_schema_hash request) \<longrightarrow>
            create_tablet env s request stores = Some (OLAP_SUCCESS, s)
            \<and> (distinct (map schema_hash (table_arr (tablet_map s) (req_tablet_id request))) \<longrightarrow>
                 length (matching_instances s (req_tablet_id request) (req_schema_hash request)) = 1))
       \<and> (\<not> registered s (req_tablet_id request) (req_schema_hash request) \<longrightarrow>
            create_tablet env s request stores = Some (OLAP_ERR_CE_TABLET_ID_EXIST, s))"
proof (intro conjI impI)
  assume r: "registered s (req_tablet_id request) (req_schema_hash request)"
  then obtain t where "get_tablet_with_no_lock s (req_tablet_id request) (req_schema_hash request) = Some t"
    using find_None_iff_registered by fastforce
  with assms show "create_tablet env s request stores = Some (OLAP_SUCCESS, s)"
    by (simp add: create_tablet_def)
next
  assume r: "registered s (req_tablet_id request) (req_schema_hash request)"
    and d: "distinct (map schema_hash (table_arr (tablet_map s) (req_tablet_id request)))"
  let ?xs = "table_arr (tablet_map s) (req_tablet_id request)"
  have "length (filter (\<lambda>t. schema_hash t = req_schema_hash request \<and> tablet_id t = req_tablet_id request) ?xs) \<le> 1"
    using d by (rule distinct_filter_le1)
  moreover have "filter (\<lambda>t. equal t (req_tablet_id request) (req_schema_hash request)) ?xs \<noteq> []"
    using r by (auto simp: registered_def filter_empty_conv)
  ultimately show "length (matching_instances s (req_tablet_id request) (req_schema_hash request)) = 1"
    by (cases "filter (\<lambda>t. equal t (req_tablet_id request) (req_schema_hash request)) ?xs")
       (auto simp: matching_instances_def equal_def conj_commute)
next
  assume "\<not> registered s (req_tablet_id request) (req_schema_hash request)"
  then have "get_tablet_with_no_lock s (req_tablet_id request) (req_schema_hash request) = None"
    by (simp add: find_None_iff_registered)
  with assms show "create_tablet env s request stores = Some (OLAP_ERR_CE_TABLET_ID_EXIST, s)"
    by (simp add: create_tablet_def)
qed

theorem create_tablet_existing_witness:
  "create_tablet example_env engine_100_7 (example_request 100 7 2) [''/d1'']
     = Some (OLAP_SUCCESS, engine_100_7)
   \<and> length (matching_instances engine_100_7 100 7) = 1
   \<and> create_tablet example_env engine_100_7 (example_request 100 9 2) [''/d1'']
     = Some (OLAP_ERR_CE_TABLET_ID_EXIST, engine_100_7)"
  using create_tablet_existing [of engine_100_7 "example_request 100 7 2" example_env "[''/d1'']"]
        create_tablet_existing [of engine_100_7 "example_request 100 9 2" example_env "[''/d1'']"]
  by (simp add: check_tablet_id_exist_unlock_def registered_def table_arr_def equal_def
        engine_100_7_def empty_engine_def example_request_def example_tablet_def)

subsection \<open>Looking a tablet up\<close>

text \<open>
  Claim C10. \<open>get_tablet\<close>: when no registered instance matches and
  \<open>include_deleted\<close> is set, the shutdown queue is searched for the first tablet with the
  given tablet id and schema hash; without \<open>include_deleted\<close> the queue is not searched.
  Whatever tablet was found, in the registry or in the queue, is returned only if it is
  used: the call never returns a tablet for which \<open>is_used\<close> is false.
\<close>

theorem get_tablet_lookup:
  "(get_tablet_with_no_lock s tid sh = None \<and> include_deleted \<longrightarrow>
      get_tablet env s tid sh include_deleted =
        (case find (\<lambda>d. tablet_id d = tid \<and> schema_hash d = sh) (shutdown_tablets s) of
           None \<Rightarrow> None
         | Some d \<Rightarrow> if is_used env d then Some d else None))
   \<and> (get_tablet_with_no_lock s tid sh = None \<and> \<not> include_deleted \<longrightarrow>
      get_tablet env s tid sh include_deleted = None)
   \<and> (\<forall>t. get_tablet_with_no_lock s tid sh = Some t \<longrightarrow>
      get_tablet env s tid sh include_deleted = (if is_used env t then Some t else None))
   \<and> (\<forall>t. get_tablet env s tid sh include_deleted = Some t \<longrightarrow> is_used env t)"
  by (auto simp: get_tablet_def Let_def split: option.splits if_splits)

theorem get_tablet_lookup_witness:
  "get_tablet example_env engine_shutdown_100_7 100 7 True
     = Some (set_tablet_state TABLET_SHUTDOWN (example_tablet 100 7 1000))
   \<and> get_tablet example_env engine_shutdown_100_7 100 7 False = None
   \<and> get_tablet (example_env\<lparr>is_used := \<lambda>t. False\<rparr>) engine_shutdown_100_7 100 7 True = None
   \<and> get_tablet (example_env\<lparr>is_used := \<lambda>t. False\<rparr>) engine_100_7 100 7 False = None
   \<and> get_tablet example_env engine_100_7 100 7 False = Some (example_tablet 100 7 1000)"
  using get_tablet_lookup [of engine_shutdown_100_7 100 7 True example_env]
        get_tablet_lookup [of engine_shutdown_100_7 100 7 False example_env]
        get_tablet_lookup [of engine_shutdown_100_7 100 7 True "example_env\<lparr>is_used := \<lambda>t. False\<rparr>"]
        get_tablet_lookup [of engine_100_7 100 7 False "example_env\<lparr>is_used := \<lambda>t. False\<rparr>"]
        get_tablet_lookup [of engine_100_7 100 7 False example_env]
  by (simp add: get_tablet_with_no_lock_def engine_shutdown_100_7_def engine_100_7_def
        empty_engine_def example_env_def example_tablet_def set_tablet_state_def equal_def)

subsection \<open>Loading from a persisted meta: the rejected metas\<close>

text \<open>
  Claim C6. \<open>load_tablet_from_meta\<close>: a meta that does not deserialise gives
  \<open>OLAP_ERR_HEADER_PB_PARSE_FAILED\<close> and leaves the state as it is; a meta in state
  \<open>TABLET_SHUTDOWN\<close> gives \<open>OLAP_ERR_TABLE_ALREADY_DELETED_ERROR\<close>, the tablet is
  appended to the shutdown queue and the registry is as before; otherwise a tablet without
  a max version and without an alter task gives \<open>OLAP_ERR_TABLE_INDEX_VALIDATE_ERROR\<close>
  and leaves the state as it is.
\<close>

theorem load_tablet_from_meta_rejects:
  "(deserialize env meta_binary = None \<longrightarrow>
      load_tablet_from_meta env s d tid sh meta_binary update_meta force
        = Some (OLAP_ERR_HEADER_PB_PARSE_FAILED, s))
   \<and> (\<forall>m. deserialize env meta_binary = Some m \<and> tablet_state m = TABLET_SHUTDOWN \<longrightarrow>
      load_tablet_from_meta env s d tid sh meta_binary update_meta force
        = Some (OLAP_ERR_TABLE_ALREADY_DELETED_ERROR,
                s\<lparr>shutdown_tablets := shutdown_tablets s @ [create_tablet_from_meta m d]\<rparr>))
   \<and> (\<forall>m. deserialize env meta_binary = Some m \<and> tablet_state m \<noteq> TABLET_SHUTDOWN
          \<and> fst (max_version (create_tablet_from_meta m d)) = -1
          \<and> alter_task (create_tablet_from_meta m d) = None \<longrightarrow>
      load_tablet_from_meta env s d tid sh meta_binary update_meta force
        = Some (OLAP_ERR_TABLE_INDEX_VALIDATE_ERROR, s))"
  by (simp add: load_tablet_from_meta_def Let_def)

theorem load_tablet_from_meta_rejects_witness:
  "load_tablet_from_meta example_env engine_100_7 ''/d1'' 100 7 ''junk'' True False
     = Some (OLAP_ERR_HEADER_PB_PARSE_FAILED, engine_100_7)
   \<and> load_tablet_from_meta
        (example_env\<lparr>deserialize := \<lambda>b. Some (set_tablet_state TABLET_SHUTDOWN (example_tablet 100 9 1000))\<rparr>)
        engine_100_7 ''/d1'' 100 9 ''hdr'' True False
     = Some (OLAP_ERR_TABLE_ALREADY_DELETED_ERROR,
             engine_100_7\<lparr>shutdown_tablets :=
               [set_tablet_state TABLET_SHUTDOWN (example_tablet 100 9 1000)]\<rparr>)
   \<and> load_tablet_from_meta
        (example_env\<lparr>deserialize := \<lambda>b. Some ((example_tablet 100 9 1000)\<lparr>rowsets := []\<rparr>)\<rparr>)
        engine_100_7 ''/d1'' 100 9 ''hdr'' True False
     = Some (OLAP_ERR_TABLE_INDEX_VALIDATE_ERROR, engine_100_7)"
  using load_tablet_from_meta_rejects [of example_env "''junk''" engine_100_7 "''/d1''" 100 7 True False]
        load_tablet_from_meta_rejects
          [of "example_env\<lparr>deserialize := \<lambda>b. Some (set_tablet_state TABLET_SHUTDOWN (example_tablet 100 9 1000))\<rparr>"
              "''hdr''" engine_100_7 "''/d1''" 100 9 True False]
        load_tablet_from_meta_rejects
          [of "example_env\<lparr>deserialize := \<lambda>b. Some ((example_tablet 100 9 1000)\<lparr>rowsets := []\<rparr>)\<rparr>"
              "''hdr''" engine_100_7 "''/d1''" 100 9 True False]
  by (simp add: example_env_def create_tablet_from_meta_def set_tablet_state_def
        example_tablet_def max_version_def rowset_with_max_version_def engine_100_7_def
        empty_engine_def)

subsection \<open>Dropping the tablets of a failed root path\<close>

lemma drop_tablets_on_error_loop_frame:
  "shutdown_tablets (drop_tablets_on_error_loop s infos) = shutdown_tablets s
   \<and> meta_store (drop_tablets_on_error_loop s infos) = meta_store s
   \<and> tablet_set (drop_tablets_on_error_loop s infos) = tablet_set s"
  by (induction infos arbitrary: s) (auto simp: Let_def split: option.splits)


lemma find_equal_None: "find (\<lambda>t. equal t tid sh) arr = None \<longleftrightarrow> (\<forall>t \<in> set arr. \<not> equal t tid sh)"
  by (auto simp: find_None_iff)

lemma listed_Cons:
  "listed (i # infos) k t \<longleftrightarrow> (info_tablet_id i = k \<and> equal t k (info_schema_hash i)) \<or> listed infos k t"
  by (auto simp: listed_def)

lemma filter_listed_absent:
  assumes "\<forall>t \<in> set arr. \<not> equal t (info_tablet_id i) (info_schema_hash i)"
  shows "filter (\<lambda>t. \<not> listed (i # infos) k t) arr = filter (\<lambda>t. \<not> listed infos k t) arr"
  using assms by (intro filter_cong) (auto simp: listed_Cons)

lemma filter_listed_other:
  assumes "info_tablet_id i \<noteq> k"
  shows "filter (\<lambda>t. \<not> listed (i # infos) k t) arr = filter (\<lambda>t. \<not> listed infos k t) arr"
  using assms by (intro filter_cong) (auto simp: listed_Cons)

lemma filter_listed_present:
  "filter (\<lambda>t. \<not> listed (i # infos) (info_tablet_id i) t) arr
     = filter (\<lambda>t. \<not> listed infos (info_tablet_id i) t)
         (filter (\<lambda>t. \<not> equal t (info_tablet_id i) (info_schema_hash i)) arr)"
  by (auto simp: listed_Cons intro: filter_cong)

lemma drop_tablets_on_error_loop_map:
  "map_of (tablet_map (drop_tablets_on_error_loop s infos)) k =
     (case map_of (tablet_map s) k of
        None \<Rightarrow> None
      | Some arr \<Rightarrow>
          if filter (\<lambda>t. \<not> listed infos k t) arr = [] \<and> arr \<noteq> [] then None
          else Some (filter (\<lambda>t. \<not> listed infos k t) arr))"
proof (induction infos arbitrary: s)
  case Nil
  show ?case by (simp add: listed_def split: option.splits)
next
  case (Cons i infos)
  let ?tid = "info_tablet_id i" and ?sh = "info_schema_hash i"
  show ?case
  proof (cases "get_tablet_with_no_lock s ?tid ?sh")
    case None
    then have step: "drop_tablets_on_error_loop s (i # infos) = drop_tablets_on_error_loop s infos"
      by (simp add: Let_def)
    show ?thesis
    proof (cases "map_of (tablet_map s) k")
      case None
      then show ?thesis unfolding step by (simp add: Cons.IH)
    next
      case (Some arr)
      have "filter (\<lambda>t. \<not> listed (i # infos) k t) arr = filter (\<lambda>t. \<not> listed infos k t) arr"
      proof (cases "?tid = k")
        case True
        with \<open>get_tablet_with_no_lock s ?tid ?sh = None\<close> Some
        have "\<forall>t \<in> set arr. \<not> equal t ?tid ?sh"
          by (simp add: get_tablet_with_no_lock_def find_equal_None)
        then show ?thesis by (rule filter_listed_absent)
      next
        case False
        then show ?thesis by (rule filter_listed_other)
      qed
      with Some show ?thesis unfolding step by (simp add: Cons.IH)
    qed
  next
    case (Some dropped)
    then obtain arr0 where arr0: "map_of (tablet_map s) ?tid = Some arr0"
      and found: "find (\<lambda>t. equal t ?tid ?sh) arr0 = Some dropped"
      by (auto simp: get_tablet_with_no_lock_def split: option.splits)
    from found have ne: "arr0 \<noteq> []" by (cases arr0) auto
    define arr1 where "arr1 = filter (\<lambda>t. \<not> equal t ?tid ?sh) arr0"
    define m' where "m' = (if arr1 = [] then tm_erase ?tid (tm_put ?tid arr1 (tablet_map s))
                           else tm_put ?tid arr1 (tablet_map s))"
    have step: "drop_tablets_on_error_loop s (i # infos)
                  = drop_tablets_on_error_loop (s\<lparr>tablet_map := m'\<rparr>) infos"
      using Some arr0 by (simp add: Let_def m'_def arr1_def table_arr_def)
    have m': "map_of m' k = (if k = ?tid then (if arr1 = [] then None else Some arr1)
                             else map_of (tablet_map s) k)"
      by (simp add: m'_def map_of_tm_put map_of_tm_erase)
    show ?thesis
    proof (cases "k = ?tid")
      case True
      have f: "filter (\<lambda>t. \<not> listed (i # infos) k t) arr0 = filter (\<lambda>t. \<not> listed infos k t) arr1"
        unfolding True arr1_def by (rule filter_listed_present)
      show ?thesis
        unfolding step using True arr0 ne f m' Cons.IH [of "s\<lparr>tablet_map := m'\<rparr>"]
        by (simp split: if_splits)
    next
      case False
      then have f: "\<And>arr. filter (\<lambda>t. \<not> listed (i # infos) k t) arr = filter (\<lambda>t. \<not> listed infos k t) arr"
        by (intro filter_listed_other) simp
      show ?thesis
        unfolding step using False m' Cons.IH [of "s\<lparr>tablet_map := m'\<rparr>"]
        by (simp add: f split: option.splits)
    qed
  qed
qed

text \<open>
  Claim C9. \<open>drop_tablets_on_error_root_path\<close> always returns \<open>OLAP_SUCCESS\<close>. It
  leaves the shutdown queue, the durable meta store and the tablet sets of the data
  directories as they are. In the registry map, the bucket of every key loses exactly the
  instances selected by a listed identity, the remaining instances are unchanged, and a
  bucket that becomes empty is erased.
\<close>

theorem drop_tablets_on_error_root_path_frame:
  "fst (drop_tablets_on_error_root_path s infos) = OLAP_SUCCESS
   \<and> shutdown_tablets (snd (drop_tablets_on_error_root_path s infos)) = shutdown_tablets s
   \<and> meta_store (snd (drop_tablets_on_error_root_path s infos)) = meta_store s
   \<and> tablet_set (snd (drop_tablets_on_error_root_path s infos)) = tablet_set s
   \<and> map_of (tablet_map (snd (drop_tablets_on_error_root_path s infos))) k =
       (case map_of (tablet_map s) k of
          None \<Rightarrow> None
        | Some arr \<Rightarrow>
            if filter (\<lambda>t. \<not> listed infos k t) arr = [] \<and> arr \<noteq> [] then None
            else Some (filter (\<lambda>t. \<not> listed infos k t) arr))"
  by (simp add: drop_tablets_on_error_root_path_def drop_tablets_on_error_loop_frame
        drop_tablets_on_error_loop_map)

theorem drop_tablets_on_error_root_path_frame_witness:
  "fst (drop_tablets_on_error_root_path engine_two_schemas
          [\<lparr>info_tablet_id = 100, info_schema_hash = 7\<rparr>, \<lparr>info_tablet_id = 200, info_schema_hash = 7\<rparr>])
     = OLAP_SUCCESS
   \<and> tablet_map (snd (drop_tablets_on_error_root_path engine_two_schemas
          [\<lparr>info_tablet_id = 100, info_schema_hash = 7\<rparr>, \<lparr>info_tablet_id = 200, info_schema_hash = 7\<rparr>]))
     = [(100, [example_tablet 100 9 1001])]
   \<and> map_of (tablet_map (snd (drop_tablets_on_error_root_path engine_two_schemas
          [\<lparr>info_tablet_id = 100, info_schema_hash = 7\<rparr>, \<lparr>info_tablet_id = 200, info_schema_hash = 7\<rparr>]))) 200
     = None"
  using drop_tablets_on_error_root_path_frame
          [of engine_two_schemas
              "[\<lparr>info_tablet_id = 100, info_schema_hash = 7\<rparr>, \<lparr>info_tablet_id = 200, info_schema_hash = 7\<rparr>]"
              200]
  by (simp add: drop_tablets_on_error_root_path_def engine_two_schemas_def empty_engine_def
        get_tablet_with_no_lock_def table_arr_def equal_def example_tablet_def tm_erase_def
        Let_def)

subsection \<open>Dropping a tablet\<close>

lemma equal_delete_alter_task [simp]: "equal (delete_alter_task t) tid sh = equal t tid sh"
  by (simp add: equal_def delete_alter_task_def)

lemma meta_key_delete_alter_task [simp]: "meta_key (delete_alter_task t) = meta_key t"
  by (simp add: meta_key_def delete_alter_task_def)

lemma find_update_first:
  "find P xs = Some x \<Longrightarrow> P (f x) \<Longrightarrow> find P (update_first P f xs) = Some (f x)"
  by (induction xs) (auto split: if_splits)

lemma get_tablet_update_registered:
  assumes "get_tablet_with_no_lock s tid sh = Some t" and "equal (f t) tid sh"
  shows "get_tablet_with_no_lock (update_registered s tid sh f) tid sh = Some (f t)"
  using assms
  by (auto simp: get_tablet_with_no_lock_def update_registered_def map_of_tm_put
        find_update_first split: option.splits)

text \<open>
  Claim C4. \<open>drop_tablet\<close>:
  \<^item> when no registered instance matches, it returns \<open>OLAP_SUCCESS\<close> and the state is as
    before;
  \<^item> when the target has an alter task whose state is not \<open>ALTER_FINISHED\<close>, the related
    tablet is registered and the target was created strictly before it, it returns
    \<open>OLAP_ERR_PREVIOUS_SCHEMA_CHANGE_NOT_FINISHED\<close> and the state is as before;
  \<^item> otherwise, when the target has an alter task and the related tablet is registered, the
    target is dropped directly from the state \<open>s1\<close> in which the registered related
    tablet has no alter task and its meta, without the alter task, is in the meta store;
    if that save fails the process is aborted and nothing is dropped;
  \<^item> when the target has no alter task, or the related tablet is not registered, the target
    is dropped directly.
\<close>

theorem drop_tablet_cases:
  "(get_tablet_with_no_lock s tid sh = None \<longrightarrow>
      drop_tablet env s tid sh keep_files = Some (OLAP_SUCCESS, s))
   \<and> (\<forall>target.
        get_tablet_with_no_lock s tid sh = Some target \<and> alter_task target = None \<longrightarrow>
        drop_tablet env s tid sh keep_files
          = Some (drop_tablet_directly_unlocked env s tid sh keep_files))
   \<and> (\<forall>target task.
        get_tablet_with_no_lock s tid sh = Some target \<and> alter_task target = Some task
        \<and> get_tablet_with_no_lock s (related_tablet_id task) (related_schema_hash task) = None \<longrightarrow>
        drop_tablet env s tid sh keep_files
          = Some (drop_tablet_directly_unlocked env s tid sh keep_files))
   \<and> (\<forall>target task related.
        get_tablet_with_no_lock s tid sh = Some target \<and> alter_task target = Some task
        \<and> get_tablet_with_no_lock s (related_tablet_id task) (related_schema_hash task) = Some related \<longrightarrow>
        (alter_state task \<noteq> ALTER_FINISHED
           \<and> sint (creation_time target) < sint (creation_time related) \<longrightarrow>
           drop_tablet env s tid sh keep_files
             = Some (OLAP_ERR_PREVIOUS_SCHEMA_CHANGE_NOT_FINISHED, s))
        \<and> (\<not> (alter_state task \<noteq> ALTER_FINISHED
                \<and> sint (creation_time target) < sint (creation_time related))
             \<and> tablet_save_meta env (delete_alter_task related) = OLAP_SUCCESS \<longrightarrow>
           (\<exists>s1. get_tablet_with_no_lock s1 (related_tablet_id task) (related_schema_hash task)
                    = Some (delete_alter_task related)
                \<and> meta_store s1 (meta_key related) = Some (delete_alter_task related)
                \<and> s1 = (update_registered s (related_tablet_id task) (related_schema_hash task)
                          delete_alter_task)
                        \<lparr>meta_store := (meta_store s)(meta_key related \<mapsto> delete_alter_task related)\<rparr>
                \<and> drop_tablet env s tid sh keep_files
                    = Some (drop_tablet_directly_unlocked env s1 tid sh keep_files)))
        \<and> (\<not> (alter_state task \<noteq> ALTER_FINISHED
                \<and> sint (creation_time target) < sint (creation_time related))
             \<and> tablet_save_meta env (delete_alter_task related) \<noteq> OLAP_SUCCESS \<longrightarrow>
           drop_tablet env s tid sh keep_files = None))"
proof (intro conjI allI impI, goal_cases)
  case 1
  then show ?case by (simp add: drop_tablet_def drop_tablet_unlock_def)
next
  case (2 target)
  then show ?case by (simp add: drop_tablet_def drop_tablet_unlock_def)
next
  case (3 target task)
  then show ?case by (simp add: drop_tablet_def drop_tablet_unlock_def)
next
  case (4 target task related)
  then show ?case by (simp add: drop_tablet_def drop_tablet_unlock_def)
next
  case (6 target task related)
  then show ?case
    by (auto simp: drop_tablet_def drop_tablet_unlock_def save_meta_def Let_def)
next
  case (5 target task related)
  let ?rid = "related_tablet_id task" and ?rsh = "related_schema_hash task"
  let ?s0 = "update_registered s ?rid ?rsh delete_alter_task"
  let ?s1 = "?s0\<lparr>meta_store := (meta_store s)(meta_key related \<mapsto> delete_alter_task related)\<rparr>"
  from 5 have rel: "get_tablet_with_no_lock s ?rid ?rsh = Some related" by simp
  then have eq: "equal related ?rid ?rsh"
    by (auto simp: get_tablet_with_no_lock_def split: option.splits dest: find_Some_iff [THEN iffD1])
  have g0: "get_tablet_with_no_lock ?s0 ?rid ?rsh = Some (delete_alter_task related)"
    using rel eq by (intro get_tablet_update_registered) simp_all
  have g1: "get_tablet_with_no_lock ?s1 ?rid ?rsh = Some (delete_alter_task related)"
    using g0 by (simp add: get_tablet_with_no_lock_def)
  have ms: "meta_store ?s0 = meta_store s"
    by (simp add: update_registered_def split: option.splits)
  have "drop_tablet env s tid sh keep_files
          = Some (drop_tablet_directly_unlocked env ?s1 tid sh keep_files)"
    using 5 by (auto simp: drop_tablet_def drop_tablet_unlock_def save_meta_def Let_def ms)
  with g1 show ?case by simp
qed


theorem drop_tablet_cases_witness:
  "drop_tablet example_env engine_100_7 100 8 False = Some (OLAP_SUCCESS, engine_100_7)
   \<and> drop_tablet example_env engine_schema_change 100 7 False
       = Some (OLAP_ERR_PREVIOUS_SCHEMA_CHANGE_NOT_FINISHED, engine_schema_change)
   \<and> map_option fst (drop_tablet example_env engine_schema_change 100 9 False) = Some OLAP_SUCCESS
   \<and> map_option (tablet_map \<circ> snd) (drop_tablet example_env engine_schema_change 100 9 False)
       = Some [(100, [example_tablet 100 7 1000])]
   \<and> map_option (shutdown_tablets \<circ> snd) (drop_tablet example_env engine_schema_change 100 9 False)
       = Some [(example_tablet 100 9 1001)
                 \<lparr>tablet_state := TABLET_SHUTDOWN,
                  alter_task := Some \<lparr>alter_state = ALTER_RUNNING, related_tablet_id = 100,
                                       related_schema_hash = 7\<rparr>\<rparr>]
   \<and> map_option (\<lambda>r. meta_store (snd r) (''/d1'', 100, 7))
        (drop_tablet example_env engine_schema_change 100 9 False)
       = Some (Some (example_tablet 100 7 1000))"
  using drop_tablet_cases [of engine_100_7 100 8 example_env False]
        drop_tablet_cases [of engine_schema_change 100 7 example_env False]
        drop_tablet_cases [of engine_schema_change 100 9 example_env False]
  by (simp add: get_tablet_with_no_lock_def engine_100_7_def engine_schema_change_def
        empty_engine_def example_env_def example_tablet_def equal_def
        drop_tablet_directly_unlocked_def update_registered_def delete_alter_task_def
        table_arr_def save_meta_def set_tablet_state_def meta_key_def tm_erase_def
        deregister_tablet_from_dir_def Let_def)

subsection \<open>The initial rowset of a fresh tablet\<close>

text \<open>
  Claim C7. \<open>create_inital_rowset\<close>: with \<open>request.version < 1\<close> it returns
  \<open>OLAP_ERR_CE_CMD_PARAMS_ERROR\<close> and neither the tablet nor the state changes, as
  claimed. With \<open>request.version \<ge> 1\<close> the construction of the rowset never succeeds:
  when \<^verbatim>\<open>next_rowset_id\<close> fails the call returns that error with the tablet and the
  state as before, and when it succeeds the call has no result, because the writer that
  \<^verbatim>\<open>new AlphaRowsetWriter()\<close> builds has a null \<^verbatim>\<open>_current_rowset_meta\<close> and its
  \<^verbatim>\<open>init\<close> dereferences it. So the call never returns \<open>OLAP_SUCCESS\<close>: no rowset
  is added, no \<open>cumulative_layer_point\<close> is set and no meta is saved.
\<close>

theorem create_inital_rowset_no_success:
  "(sint (req_version request) < 1 \<longrightarrow>
      create_inital_rowset env s tablet request = Some (OLAP_ERR_CE_CMD_PARAMS_ERROR, tablet, s))
   \<and> (1 \<le> sint (req_version request) \<and> fst (next_rowset_id env tablet) \<noteq> OLAP_SUCCESS \<longrightarrow>
      create_inital_rowset env s tablet request = Some (fst (next_rowset_id env tablet), tablet, s))
   \<and> (1 \<le> sint (req_version request) \<and> fst (next_rowset_id env tablet) = OLAP_SUCCESS \<longrightarrow>
      create_inital_rowset env s tablet request = None)
   \<and> (\<forall>tablet' s'. create_inital_rowset env s tablet request \<noteq> Some (OLAP_SUCCESS, tablet', s'))"
  by (auto simp: create_inital_rowset_def Let_def writer_init_def AlphaRowsetWriter_new_def
        split: prod.splits)

theorem create_inital_rowset_no_success_witness:
  "create_inital_rowset example_env empty_engine
      ((example_tablet 100 7 1000)\<lparr>rowsets := []\<rparr>) (example_request 100 7 0)
     = Some (OLAP_ERR_CE_CMD_PARAMS_ERROR, (example_tablet 100 7 1000)\<lparr>rowsets := []\<rparr>,
             empty_engine)
   \<and> create_inital_rowset example_env empty_engine
      ((example_tablet 100 7 1000)\<lparr>rowsets := []\<rparr>) (example_request 100 7 2) = None
   \<and> create_inital_rowset
      (example_env\<lparr>next_rowset_id := (\<lambda>t. (OLAP_ERR_IO_ERROR, 0))\<rparr>) empty_engine
      ((example_tablet 100 7 1000)\<lparr>rowsets := []\<rparr>) (example_request 100 7 2)
     = Some (OLAP_ERR_IO_ERROR, (example_tablet 100 7 1000)\<lparr>rowsets := []\<rparr>, empty_engine)"
  using create_inital_rowset_no_success
          [of "example_request 100 7 0" example_env empty_engine
              "(example_tablet 100 7 1000)\<lparr>rowsets := []\<rparr>"]
        create_inital_rowset_no_success
          [of "example_request 100 7 2" example_env empty_engine
              "(example_tablet 100 7 1000)\<lparr>rowsets := []\<rparr>"]
        create_inital_rowset_no_success
          [of "example_request 100 7 2"
              "example_env\<lparr>next_rowset_id := (\<lambda>t. (OLAP_ERR_IO_ERROR, 0))\<rparr>"
              empty_engine "(example_tablet 100 7 1000)\<lparr>rowsets := []\<rparr>"]
  by (simp add: example_env_def example_request_def)

subsection \<open>Choosing the tablet to compact\<close>

text \<open>
  The loop either leaves the accumulator alone, and then no remaining candidate scores
  above it, or ends on the first candidate that attains the highest score, which is above
  the accumulator's.
\<close>

lemma best_tablet_loop_spec:
  "(\<exists>hi'. best_tablet_loop s k ts (hi, best) = (hi', best) \<and> hi' = hi
          \<and> (\<forall>t \<in> set (filter (\<lambda>t. \<not> compaction_skipped s t) ts). table_score k t \<le> hi))
   \<or> (\<exists>pre b post.
          filter (\<lambda>t. \<not> compaction_skipped s t) ts = pre @ b # post
          \<and> best_tablet_loop s k ts (hi, best) = (table_score k b, Some b)
          \<and> hi < table_score k b
          \<and> (\<forall>t \<in> set pre. table_score k t < table_score k b)
          \<and> (\<forall>t \<in> set post. table_score k t \<le> table_score k b))"
proof (induction ts arbitrary: hi best)
  case Nil
  show ?case by simp
next
  case (Cons t ts)
  let ?c = "\<lambda>ts. filter (\<lambda>t. \<not> compaction_skipped s t) ts"
  show ?case
  proof (cases "compaction_skipped s t")
    case True
    with Cons.IH [of hi best] show ?thesis by simp
  next
    case False
    show ?thesis
    proof (cases "hi < table_score k t")
      case True
      from Cons.IH [of "table_score k t" "Some t"]
      show ?thesis
      proof (elim disjE exE conjE)
        fix hi'
        assume "best_tablet_loop s k ts (table_score k t, Some t) = (hi', Some t)"
          "hi' = table_score k t" "\<forall>x \<in> set (?c ts). table_score k x \<le> table_score k t"
        with False True have
          "?c (t # ts) = [] @ t # ?c ts
           \<and> best_tablet_loop s k (t # ts) (hi, best) = (table_score k t, Some t)
           \<and> hi < table_score k t
           \<and> (\<forall>x \<in> set []. table_score k x < table_score k t)
           \<and> (\<forall>x \<in> set (?c ts). table_score k x \<le> table_score k t)"
          by simp
        then show ?thesis by blast
      next
        fix pre b post
        assume a: "?c ts = pre @ b # post"
          "best_tablet_loop s k ts (table_score k t, Some t) = (table_score k b, Some b)"
          "table_score k t < table_score k b"
          "\<forall>x \<in> set pre. table_score k x < table_score k b"
          "\<forall>x \<in> set post. table_score k x \<le> table_score k b"
        with False True have
          "?c (t # ts) = (t # pre) @ b # post
           \<and> best_tablet_loop s k (t # ts) (hi, best) = (table_score k b, Some b)
           \<and> hi < table_score k b
           \<and> (\<forall>x \<in> set (t # pre). table_score k x < table_score k b)
           \<and> (\<forall>x \<in> set post. table_score k x \<le> table_score k b)"
          by auto
        then show ?thesis by blast
      qed
    next
      case le: False
      from Cons.IH [of hi best]
      show ?thesis
      proof (elim disjE exE conjE)
        fix hi'
        assume "best_tablet_loop s k ts (hi, best) = (hi', best)" "hi' = hi"
          "\<forall>x \<in> set (?c ts). table_score k x \<le> hi"
        with False le show ?thesis by (auto simp: not_less)
      next
        fix pre b post
        assume a: "?c ts = pre @ b # post"
          "best_tablet_loop s k ts (hi, best) = (table_score k b, Some b)"
          "hi < table_score k b"
          "\<forall>x \<in> set pre. table_score k x < table_score k b"
          "\<forall>x \<in> set post. table_score k x \<le> table_score k b"
        with False le have
          "?c (t # ts) = (t # pre) @ b # post
           \<and> best_tablet_loop s k (t # ts) (hi, best) = (table_score k b, Some b)
           \<and> hi < table_score k b
           \<and> (\<forall>x \<in> set (t # pre). table_score k x < table_score k b)
           \<and> (\<forall>x \<in> set post. table_score k x \<le> table_score k b)"
          by (auto simp: not_less)
        then show ?thesis by blast
      qed
    qed
  qed
qed

text \<open>
  Claim C8, as amended. Among the instances that are not skipped (not the newer side of a
  running schema change, initialised, able to compact), \<open>find_best_tablet_to_compaction\<close>
  returns the first visited one that attains the highest score, provided that score is
  positive: every candidate visited before it scores strictly less, every later one at
  most as much. It returns none exactly when every candidate scores 0, which includes the
  empty registry and the registry whose instances are all skipped.
\<close>

theorem find_best_tablet_to_compaction_first_positive_max:
  "(find_best_tablet_to_compaction s k = None
      \<longleftrightarrow> (\<forall>t \<in> set (compaction_candidates s). table_score k t = 0))
   \<and> (\<forall>b. find_best_tablet_to_compaction s k = Some b \<longrightarrow>
        (\<exists>pre post. compaction_candidates s = pre @ b # post
           \<and> 0 < table_score k b
           \<and> (\<forall>t \<in> set pre. table_score k t < table_score k b)
           \<and> (\<forall>t \<in> set post. table_score k t \<le> table_score k b)))"
proof -
  from best_tablet_loop_spec [of s k "visited_tablets s" 0 None]
  show ?thesis
  proof (elim disjE exE conjE)
    fix hi'
    assume "best_tablet_loop s k (visited_tablets s) (0, None) = (hi', None)" "hi' = 0"
      "\<forall>t \<in> set (filter (\<lambda>t. \<not> compaction_skipped s t) (visited_tablets s)). table_score k t \<le> 0"
    then show ?thesis
      by (simp add: find_best_tablet_to_compaction_def compaction_candidates_def)
  next
    fix pre b post
    assume a: "filter (\<lambda>t. \<not> compaction_skipped s t) (visited_tablets s) = pre @ b # post"
      "best_tablet_loop s k (visited_tablets s) (0, None) = (table_score k b, Some b)"
      "0 < table_score k b"
      "\<forall>t \<in> set pre. table_score k t < table_score k b"
      "\<forall>t \<in> set post. table_score k t \<le> table_score k b"
    then have "find_best_tablet_to_compaction s k = Some b"
      by (simp add: find_best_tablet_to_compaction_def)
    moreover have "\<not> (\<forall>t \<in> set (compaction_candidates s). table_score k t = 0)"
      using a by (auto simp: compaction_candidates_def)
    ultimately show ?thesis
      using a by (auto simp: compaction_candidates_def)
  qed
qed

theorem find_best_tablet_to_compaction_first_positive_max_witness:
  "find_best_tablet_to_compaction engine_scores_5_9_9 BASE_COMPACTION
     = Some ((example_tablet 200 7 1001)\<lparr>calc_base_compaction_score := 9\<rparr>)
   \<and> find_best_tablet_to_compaction empty_engine BASE_COMPACTION = None"
  using find_best_tablet_to_compaction_first_positive_max [of engine_scores_5_9_9 BASE_COMPACTION]
        find_best_tablet_to_compaction_first_positive_max [of empty_engine BASE_COMPACTION]
  by (simp add: compaction_candidates_def find_best_tablet_to_compaction_def visited_tablets_def
        engine_scores_5_9_9_def empty_engine_def compaction_skipped_def example_tablet_def
        table_score_def)

text \<open>
  The score starts at 0 and only a strictly greater score replaces it: a registry whose
  only instance is a candidate with score 0 gives none.
\<close>

theorem find_best_tablet_to_compaction_zero_score_counterexample:
  "compaction_candidates engine_zero_score
     = [(example_tablet 100 7 1000)\<lparr>calc_base_compaction_score := 0\<rparr>]
   \<and> find_best_tablet_to_compaction engine_zero_score BASE_COMPACTION = None"
  by (simp add: compaction_candidates_def find_best_tablet_to_compaction_def visited_tablets_def
        engine_zero_score_def empty_engine_def compaction_skipped_def example_tablet_def
        table_score_def)

subsection \<open>Creation time of a schema-change tablet\<close>

lemma sint_succ_64:
  fixes x :: "64 word"
  assumes "sint x < 2 ^ 63 - 1"
  shows "sint (x + 1) = sint x + 1"
proof -
  have "- (2 ^ 63) \<le> sint x" using sint_ge [of x] by simp
  with assms have "signed_take_bit 63 (sint x + 1) = sint x + 1"
    by (intro signed_take_bit_int_eq_self) simp_all
  then show ?thesis by (simp add: sint_word_ariths)
qed

lemma create_tablet_meta_and_dir_Some:
  "create_tablet_meta_and_dir env request dirs = Some t \<Longrightarrow>
     tablet_id t = req_tablet_id request \<and> schema_hash t = req_schema_hash request
     \<and> creation_time t = creation_time (tablet_template env)"
  by (induction dirs) (auto split: prod.splits if_splits simp: Let_def)

lemma init_tablet_fields:
  "init_tablet env t = (res, t') \<Longrightarrow>
     tablet_id t' = tablet_id t \<and> schema_hash t' = schema_hash t \<and> creation_time t' = creation_time t"
  by (auto simp: init_tablet_def Let_def split: if_splits)

lemma find_Some_member: "find P xs = Some y \<Longrightarrow> y \<in> set xs \<and> P y"
  by (induction xs) (auto split: if_splits)

lemma find_unique:
  assumes "x \<in> set xs" and "P x" and "\<forall>y \<in> set xs. P y \<longrightarrow> y = x"
  shows "find P xs = Some x"
proof -
  from assms(1,2) obtain y where y: "find P xs = Some y"
    by (cases "find P xs") (auto simp: find_None_iff)
  from find_Some_member [OF y] assms(3) have "y = x" by blast
  with y show ?thesis by simp
qed

lemma tablet_map_register [simp]:
  "tablet_map (snd (register_tablet_into_dir s t)) = tablet_map s"
  by (simp add: register_tablet_into_dir_def)

lemma tablet_map_TabletMetaManager_save [simp]:
  "tablet_map (snd (TabletMetaManager_save env s t)) = tablet_map s"
  by (simp add: TabletMetaManager_save_def Let_def)

lemma add_tablet_to_map_no_drop:
  "add_tablet_to_map env s tid sh tablet update_meta keep_files False =
     (case (if update_meta then TabletMetaManager_save env s tablet else (OLAP_SUCCESS, s)) of
        (res, s1) \<Rightarrow>
          if res \<noteq> OLAP_SUCCESS then Some (res, s1)
          else Some (OLAP_SUCCESS,
                 (snd (register_tablet_into_dir s1 tablet))
                 \<lparr>tablet_map :=
                    tm_put tid (sort_by_creation_time (table_arr (tablet_map s1) tid @ [tablet]))
                      (tablet_map s1)\<rparr>))"
  by (simp add: add_tablet_to_map_def register_tablet_into_dir_def split: prod.splits)

lemma add_tablet_to_map_fresh_bucket:
  assumes "add_tablet_to_map env s tid sh tablet update_meta keep_files False = Some (OLAP_SUCCESS, s')"
  shows "table_arr (tablet_map s') tid = sort_by_creation_time (table_arr (tablet_map s) tid @ [tablet])"
proof -
  obtain r1 s1 where s1: "(if update_meta then TabletMetaManager_save env s tablet else (OLAP_SUCCESS, s)) = (r1, s1)"
    by (cases "if update_meta then TabletMetaManager_save env s tablet else (OLAP_SUCCESS, s)")
  have m1: "tablet_map s1 = tablet_map s"
  proof (cases update_meta)
    case True
    with s1 have "s1 = snd (TabletMetaManager_save env s tablet)" by simp
    then show ?thesis by simp
  next
    case False
    with s1 show ?thesis by simp
  qed
  have r1: "r1 = OLAP_SUCCESS"
    using assms unfolding add_tablet_to_map_no_drop s1 by (cases "r1 = OLAP_SUCCESS") simp_all
  have "tablet_map s' =
      tm_put tid (sort_by_creation_time (table_arr (tablet_map s1) tid @ [tablet])) (tablet_map s1)"
    using assms unfolding add_tablet_to_map_no_drop s1 r1 by auto
  then show ?thesis by (simp add: m1 table_arr_def map_of_tm_put)
qed

lemma table_arr_tm_index [simp]: "table_arr (tm_index k m) k' = table_arr m k'"
  by (auto simp: table_arr_def tm_index_def map_of_tm_put split: option.splits)

lemma find_table_arr_None:
  "get_tablet_with_no_lock s tid sh = None \<Longrightarrow> find (\<lambda>t. equal t tid sh) (table_arr (tablet_map s) tid) = None"
  by (auto simp: get_tablet_with_no_lock_def table_arr_def split: option.splits)

lemma add_tablet_unlock_fresh:
  assumes "get_tablet_with_no_lock s tid sh = None"
    and "add_tablet_unlock env s tid sh tablet update_meta force = Some (OLAP_SUCCESS, s')"
    and "equal tablet tid sh"
  shows "get_tablet_with_no_lock s' tid sh = Some tablet"
proof -
  let ?s = "s\<lparr>tablet_map := tm_index tid (tablet_map s)\<rparr>"
  have none: "find (\<lambda>t. equal t tid sh) (table_arr (tablet_map s) tid) = None"
    using assms(1) by (rule find_table_arr_None)
  with assms(2) have "add_tablet_to_map env ?s tid sh tablet update_meta False False = Some (OLAP_SUCCESS, s')"
    by (simp add: add_tablet_unlock_def Let_def)
  then have b: "table_arr (tablet_map s') tid = sort_by_creation_time (table_arr (tablet_map s) tid @ [tablet])"
    by (simp add: add_tablet_to_map_fresh_bucket)
  have "find (\<lambda>t. equal t tid sh) (table_arr (tablet_map s') tid) = Some tablet"
    using none assms(3) unfolding b sort_by_creation_time_def
    by (intro find_unique) (auto simp: find_None_iff)
  moreover have "length (table_arr (tablet_map s') tid) = Suc (length (table_arr (tablet_map s) tid))"
    unfolding b sort_by_creation_time_def by simp
  then have "map_of (tablet_map s') tid \<noteq> None"
    by (auto simp: table_arr_def split: option.splits)
  ultimately show ?thesis
    by (auto simp: get_tablet_with_no_lock_def table_arr_def split: option.splits)
qed

lemma internal_create_block_schema_change:
  "internal_create_block env s request True (Some r) t0 =
     (case init_tablet env t0 of
        (res, t1) \<Rightarrow>
          if res \<noteq> OLAP_SUCCESS then Some (res, t1, False, s)
          else
            (let t2 = (if sint (creation_time t1) \<le> sint (creation_time r)
                       then set_creation_time (creation_time r + 1) t1 else t1)
             in case add_tablet_unlock env s (req_tablet_id request) (req_schema_hash request)
                       t2 True False of
                  None \<Rightarrow> None
                | Some (res, s2) \<Rightarrow>
                    if res \<noteq> OLAP_SUCCESS then Some (res, t2, False, s2)
                    else
                      (case get_tablet_with_no_lock s2 (req_tablet_id request)
                              (req_schema_hash request) of
                         None \<Rightarrow> Some (OLAP_ERR_TABLE_NOT_FOUND, t2, True, s2)
                       | Some tablet_ptr \<Rightarrow> Some (OLAP_SUCCESS, t2, True, s2))))"
  by (simp add: internal_create_block_def Let_def split: prod.splits)

lemma internal_create_tablet_Some:
  assumes "internal_create_tablet env s request sc ref_tablet data_dirs = Some (Some tablet, s')"
  shows "get_tablet_with_no_lock s (req_tablet_id request) (req_schema_hash request) = None
         \<and> (\<exists>t0 added. create_tablet_meta_and_dir env request data_dirs = Some t0
               \<and> internal_create_block env s request sc ref_tablet t0
                   = Some (OLAP_SUCCESS, tablet, added, s'))"
proof -
  let ?g = "get_tablet_with_no_lock s (req_tablet_id request) (req_schema_hash request)"
  have none: "?g = None"
    using assms by (cases ?g) (simp_all add: internal_create_tablet_def)
  obtain t0 where t0: "create_tablet_meta_and_dir env request data_dirs = Some t0"
    using assms none
    by (cases "create_tablet_meta_and_dir env request data_dirs")
       (simp_all add: internal_create_tablet_def)
  obtain res tb added s1 where
    blk: "internal_create_block env s request sc ref_tablet t0 = Some (res, tb, added, s1)"
    using assms none t0
    by (cases "internal_create_block env s request sc ref_tablet t0")
       (auto simp add: internal_create_tablet_def)
  have "res = OLAP_SUCCESS \<and> tb = tablet \<and> s1 = s'"
    using assms none t0 blk
    by (cases "res = OLAP_SUCCESS")
       (auto simp add: internal_create_tablet_def split: option.splits if_splits)
  with none t0 blk show ?thesis by simp
qed

text \<open>
  Claim C5, as amended. When the schema-change creation with a \<open>ref_tablet\<close> returns a
  tablet, that tablet is the instance registered under the requested identity; its
  creation time is the one of the freshly built tablet, or \<open>ref_tablet.creation_time + 1\<close>
  (in 64-bit arithmetic) when the fresh one is not greater than the creation time of
  \<open>ref_tablet\<close>; and it is strictly greater than the creation time of \<open>ref_tablet\<close>
  provided the latter is below the greatest \<open>int64_t\<close>.
\<close>

theorem schema_change_creation_time:
  assumes "create_tablet_schema_change env s request True (Some ref_tablet) data_dirs
             = Some (Some tablet, s')"
  shows "creation_time tablet =
           (if sint (creation_time (tablet_template env)) \<le> sint (creation_time ref_tablet)
            then creation_time ref_tablet + 1 else creation_time (tablet_template env))
         \<and> get_tablet_with_no_lock s' (req_tablet_id request) (req_schema_hash request) = Some tablet
         \<and> (sint (creation_time ref_tablet) < 2 ^ 63 - 1 \<longrightarrow>
              sint (creation_time ref_tablet) < sint (creation_time tablet))"
proof -
  let ?tid = "req_tablet_id request" and ?sh = "req_schema_hash request"
  from assms have ict: "internal_create_tablet env s request True (Some ref_tablet) data_dirs
                          = Some (Some tablet, s')"
    by (simp add: create_tablet_schema_change_def)
  from internal_create_tablet_Some [OF ict] obtain t0 added where
    none: "get_tablet_with_no_lock s ?tid ?sh = None"
    and t0: "create_tablet_meta_and_dir env request data_dirs = Some t0"
    and blk: "internal_create_block env s request True (Some ref_tablet) t0
                = Some (OLAP_SUCCESS, tablet, added, s')"
    by blast
  obtain r1 t1 where t1: "init_tablet env t0 = (r1, t1)" by (cases "init_tablet env t0")
  note f0 = create_tablet_meta_and_dir_Some [OF t0]
  note f1 = init_tablet_fields [OF t1]
  define t2 where "t2 = (if sint (creation_time t1) \<le> sint (creation_time ref_tablet)
                         then set_creation_time (creation_time ref_tablet + 1) t1 else t1)"
  have r1: "r1 = OLAP_SUCCESS"
    using blk t1 by (cases "r1 = OLAP_SUCCESS") (simp_all add: internal_create_block_schema_change)
  obtain r2 s2 where add0: "add_tablet_unlock env s ?tid ?sh t2 True False = Some (r2, s2)"
    using blk t1 r1
    by (cases "add_tablet_unlock env s ?tid ?sh t2 True False")
       (auto simp add: internal_create_block_schema_change t2_def Let_def)
  have r2: "r2 = OLAP_SUCCESS"
    using blk t1 r1 add0
    by (cases "r2 = OLAP_SUCCESS")
       (simp_all add: internal_create_block_schema_change t2_def [symmetric] Let_def)
  have "tablet = t2 \<and> s' = s2"
    using blk t1 r1 add0 r2
    by (cases "get_tablet_with_no_lock s2 ?tid ?sh")
       (simp_all add: internal_create_block_schema_change t2_def [symmetric] Let_def)
  then have tab: "tablet = t2"
    and add: "add_tablet_unlock env s ?tid ?sh t2 True False = Some (OLAP_SUCCESS, s')"
    using add0 r2 by simp_all
  have eq: "equal t2 ?tid ?sh"
    using f0 f1 by (simp add: t2_def equal_def set_creation_time_def)
  have ct: "creation_time t2 =
           (if sint (creation_time (tablet_template env)) \<le> sint (creation_time ref_tablet)
            then creation_time ref_tablet + 1 else creation_time (tablet_template env))"
    using f0 f1 by (simp add: t2_def set_creation_time_def)
  have pub: "get_tablet_with_no_lock s' ?tid ?sh = Some t2"
    using none add eq by (rule add_tablet_unlock_fresh)
  have "sint (creation_time ref_tablet) < sint (creation_time t2)"
    if "sint (creation_time ref_tablet) < 2 ^ 63 - 1"
    using that by (simp add: ct sint_succ_64)
  with ct pub tab show ?thesis by simp
qed

text \<open>Evaluation of a creation on the example data.\<close>

lemmas create_eval =
  create_tablet_schema_change_def internal_create_tablet_def internal_create_block_def
  init_tablet_def add_tablet_unlock_def add_tablet_to_map_def TabletMetaManager_save_def
  register_tablet_into_dir_def tm_index_def table_arr_def sort_by_creation_time_def
  get_tablet_with_no_lock_def equal_def set_creation_time_def Let_def
  example_env_def example_request_def example_tablet_def empty_engine_def

theorem schema_change_creation_time_witness:
  "create_tablet_schema_change example_env engine_100_7 (example_request 100 9 2) True
       (Some (example_tablet 100 7 1000)) [''/d1'']
     = Some (Some (schema_change_tablet 1001),
             snd (the (create_tablet_schema_change example_env engine_100_7
                         (example_request 100 9 2) True (Some (example_tablet 100 7 1000)) [''/d1''])))
   \<and> sint (creation_time (example_tablet 100 7 1000)) < 2 ^ 63 - 1
   \<and> sint (creation_time (example_tablet 100 7 1000)) < sint (creation_time (schema_change_tablet 1001))
   \<and> map_option (map (\<lambda>t. (schema_hash t, sint (creation_time t))))
        (map_of (tablet_map (snd (the (create_tablet_schema_change example_env engine_100_7
                         (example_request 100 9 2) True (Some (example_tablet 100 7 1000)) [''/d1''])))) 100)
       = Some [(7, 1000), (9, 1001)]"
proof -
  have h: "create_tablet_schema_change example_env engine_100_7 (example_request 100 9 2) True
       (Some (example_tablet 100 7 1000)) [''/d1'']
     = Some (Some (schema_change_tablet 1001),
             snd (the (create_tablet_schema_change example_env engine_100_7
                         (example_request 100 9 2) True (Some (example_tablet 100 7 1000)) [''/d1''])))"
    by (simp add: create_eval engine_100_7_def schema_change_tablet_def)
  have m: "map_option (map (\<lambda>t. (schema_hash t, sint (creation_time t))))
        (map_of (tablet_map (snd (the (create_tablet_schema_change example_env engine_100_7
                         (example_request 100 9 2) True (Some (example_tablet 100 7 1000)) [''/d1''])))) 100)
       = Some [(7, 1000), (9, 1001)]"
    by (simp add: create_eval engine_100_7_def)
  from schema_change_creation_time [OF h] h m show ?thesis
    by (simp add: example_tablet_def)
qed

text \<open>
  With a \<open>ref_tablet\<close> created at the greatest \<open>int64_t\<close> the increment wraps around:
  the tablet that is published is older than \<open>ref_tablet\<close>.
\<close>

theorem schema_change_creation_time_overflow_counterexample:
  "sint (creation_time ref_tablet_max) = 9223372036854775807
   \<and> create_tablet_schema_change example_env engine_ref_max (example_request 100 9 2) True
         (Some ref_tablet_max) [''/d1'']
       = Some (Some (schema_change_tablet (- 9223372036854775808)),
               snd (the (create_tablet_schema_change example_env engine_ref_max
                           (example_request 100 9 2) True (Some ref_tablet_max) [''/d1''])))
   \<and> sint (creation_time (schema_change_tablet (- 9223372036854775808))) = - 9223372036854775808
   \<and> \<not> sint (creation_time ref_tablet_max)
          < sint (creation_time (schema_change_tablet (- 9223372036854775808)))"
  by (simp add: create_eval engine_ref_max_def ref_tablet_max_def schema_change_tablet_def)

subsection \<open>Adding a tablet whose identity is already registered\<close>

text \<open>A drop that succeeds leaves no instance of the dropped identity in the bucket.\<close>

lemma tablet_map_save_meta [simp]: "tablet_map (snd (save_meta env s t)) = tablet_map s"
  by (simp add: save_meta_def Let_def)

lemma drop_loop_tablet_map: "tablet_map (snd (snd (drop_loop env tid sh keep ts s))) = tablet_map s"
proof (induction ts arbitrary: s)
  case Nil
  show ?case by simp
next
  case (Cons t ts)
  show ?case
  proof (cases "equal t tid sh")
    case False
    with Cons.IH [of s] show ?thesis by (auto split: prod.splits)
  next
    case True
    show ?thesis
    proof (cases keep)
      case True
      with \<open>equal t tid sh\<close> Cons.IH [of s] show ?thesis by simp
    next
      case False
      obtain r s1 where sv: "save_meta env s (set_tablet_state TABLET_SHUTDOWN t) = (r, s1)"
        by (cases "save_meta env s (set_tablet_state TABLET_SHUTDOWN t)")
      then have m: "tablet_map s1 = tablet_map s"
        using tablet_map_save_meta [of env s "set_tablet_state TABLET_SHUTDOWN t"] by simp
      show ?thesis
        using True False sv m
          Cons.IH [of "s1\<lparr>shutdown_tablets := shutdown_tablets s1 @ [set_tablet_state TABLET_SHUTDOWN t]\<rparr>"]
        by (cases "r = OLAP_SUCCESS") simp_all
    qed
  qed
qed

lemma drop_loop_success:
  "fst (drop_loop env tid sh keep ts s) = OLAP_SUCCESS \<Longrightarrow>
     fst (snd (drop_loop env tid sh keep ts s)) = filter (\<lambda>t. \<not> equal t tid sh) ts"
proof (induction ts arbitrary: s)
  case Nil
  show ?case by simp
next
  case (Cons t ts)
  show ?case
  proof (cases "equal t tid sh")
    case False
    with Cons.prems Cons.IH [of s] show ?thesis by (auto split: prod.splits)
  next
    case True
    show ?thesis
    proof (cases keep)
      case True
      with \<open>equal t tid sh\<close> Cons.prems Cons.IH [of s] show ?thesis by simp
    next
      case False
      obtain r s1 where sv: "save_meta env s (set_tablet_state TABLET_SHUTDOWN t) = (r, s1)"
        by (cases "save_meta env s (set_tablet_state TABLET_SHUTDOWN t)")
      show ?thesis
        using True False sv Cons.prems
          Cons.IH [of "s1\<lparr>shutdown_tablets := shutdown_tablets s1 @ [set_tablet_state TABLET_SHUTDOWN t]\<rparr>"]
        by (cases "r = OLAP_SUCCESS") simp_all
    qed
  qed
qed

lemma drop_tablet_directly_unlocked_success:
  assumes "drop_tablet_directly_unlocked env s tid sh keep = (OLAP_SUCCESS, s')"
  shows "table_arr (tablet_map s') tid = filter (\<lambda>t. \<not> equal t tid sh) (table_arr (tablet_map s) tid)"
proof -
  obtain d where d: "get_tablet_with_no_lock s tid sh = Some d"
    using assms by (cases "get_tablet_with_no_lock s tid sh") (simp_all add: drop_tablet_directly_unlocked_def)
  obtain res arr s1 where l: "drop_loop env tid sh keep (table_arr (tablet_map s) tid) s = (res, arr, s1)"
    by (cases "drop_loop env tid sh keep (table_arr (tablet_map s) tid) s") auto
  have res: "res = OLAP_SUCCESS"
    using assms d l by (cases "res = OLAP_SUCCESS") (simp_all add: drop_tablet_directly_unlocked_def Let_def)
  have arr: "arr = filter (\<lambda>t. \<not> equal t tid sh) (table_arr (tablet_map s) tid)"
    using drop_loop_success [of env tid sh keep "table_arr (tablet_map s) tid" s] l res by simp
  have "tablet_map s' = (if arr = [] then tm_erase tid (tm_put tid arr (tablet_map s1))
                         else tm_put tid arr (tablet_map s1))"
    using assms d l res
    by (auto simp: drop_tablet_directly_unlocked_def Let_def deregister_tablet_from_dir_def
          table_arr_def map_of_tm_put)
  then have "table_arr (tablet_map s') tid = arr"
    by (simp add: table_arr_def map_of_tm_put map_of_tm_erase)
  with arr show ?thesis by simp
qed

lemma drop_tablet_unlock_success:
  assumes "drop_tablet_unlock env s tid sh keep = Some (OLAP_SUCCESS, s')"
  shows "\<forall>t \<in> set (table_arr (tablet_map s') tid). \<not> equal t tid sh"
proof (cases "get_tablet_with_no_lock s tid sh")
  case None
  with assms have "s' = s" by (simp add: drop_tablet_unlock_def)
  with find_table_arr_None [OF None] show ?thesis by (simp add: find_None_iff)
next
  case (Some target)
  have "\<exists>s0. drop_tablet_directly_unlocked env s0 tid sh keep = (OLAP_SUCCESS, s')"
  proof (cases "alter_task target")
    case None
    with assms Some show ?thesis by (auto simp: drop_tablet_unlock_def)
  next
    case (Some task)
    note task = this
    show ?thesis
    proof (cases "get_tablet_with_no_lock s (related_tablet_id task) (related_schema_hash task)")
      case None
      with assms \<open>get_tablet_with_no_lock s tid sh = Some target\<close> task show ?thesis
        by (auto simp: drop_tablet_unlock_def)
    next
      case (Some related)
      obtain r s2 where sv:
        "save_meta env (update_registered s (related_tablet_id task) (related_schema_hash task)
                          delete_alter_task) (delete_alter_task related) = (r, s2)"
        by (cases "save_meta env (update_registered s (related_tablet_id task)
                     (related_schema_hash task) delete_alter_task) (delete_alter_task related)")
      from assms \<open>get_tablet_with_no_lock s tid sh = Some target\<close> task Some sv
      have "drop_tablet_directly_unlocked env s2 tid sh keep = (OLAP_SUCCESS, s')"
        by (simp add: drop_tablet_unlock_def Let_def split: if_splits)
      then show ?thesis by blast
    qed
  qed
  then obtain s0 where "drop_tablet_directly_unlocked env s0 tid sh keep = (OLAP_SUCCESS, s')" ..
  from drop_tablet_directly_unlocked_success [OF this] show ?thesis by simp
qed

lemma add_tablet_to_map_drop_old:
  assumes "add_tablet_to_map env s tid sh tablet update_meta keep True = Some (OLAP_SUCCESS, s')"
  shows "tablet \<in> set (table_arr (tablet_map s') tid)
         \<and> (\<forall>t \<in> set (table_arr (tablet_map s') tid). equal t tid sh \<longrightarrow> t = tablet)"
proof -
  obtain r1 s1 where s1: "(if update_meta then TabletMetaManager_save env s tablet else (OLAP_SUCCESS, s)) = (r1, s1)"
    by (cases "if update_meta then TabletMetaManager_save env s tablet else (OLAP_SUCCESS, s)")
  have r1: "r1 = OLAP_SUCCESS"
    using assms unfolding add_tablet_to_map_def s1 by (cases "r1 = OLAP_SUCCESS") simp_all
  obtain r2 s2 where d: "drop_tablet_unlock env s1 tid sh keep = Some (r2, s2)"
    using assms unfolding add_tablet_to_map_def s1 r1
    by (cases "drop_tablet_unlock env s1 tid sh keep") auto
  have r2: "r2 = OLAP_SUCCESS"
    using assms unfolding add_tablet_to_map_def s1 r1 by (cases "r2 = OLAP_SUCCESS") (simp_all add: d)
  have "tablet_map s' =
      tm_put tid (sort_by_creation_time (table_arr (tablet_map s2) tid @ [tablet])) (tablet_map s2)"
    using assms unfolding add_tablet_to_map_def s1 r1
    by (auto simp add: d r2 register_tablet_into_dir_def)
  then have b: "table_arr (tablet_map s') tid
                  = sort_by_creation_time (table_arr (tablet_map s2) tid @ [tablet])"
    by (simp add: table_arr_def map_of_tm_put)
  from drop_tablet_unlock_success [OF d [unfolded r2]]
  show ?thesis unfolding b sort_by_creation_time_def by auto
qed

lemma sint_eq_iff_32: "sint (a::32 word) = sint b \<longleftrightarrow> a = b"
  by (auto intro: signed_word_eqI)

lemma sint_eq_minus1_iff_32: "sint (a::32 word) = - 1 \<longleftrightarrow> a = - 1"
  using sint_eq_iff_32 [of a "- 1"] by simp

lemma sint_int32_of:
  "- 2147483648 \<le> sint w \<Longrightarrow> sint w \<le> 2147483647 \<Longrightarrow> sint (int32_of w) = sint w"
  unfolding int32_of_def by (simp only: sint_sbintrunc') (simp add: signed_take_bit_int_eq_self)

lemma add_tablet_unlock_found:
  assumes "find (\<lambda>item. equal item tid sh) (table_arr (tablet_map s) tid) = Some table_item"
    and "rowset_with_max_version tablet = Some new_rowset"
  shows "add_tablet_unlock env s tid sh tablet update_meta force =
      (if \<not> force \<and> same_place table_item tablet
       then Some (OLAP_ERR_ENGINE_INSERT_EXISTS_TABLE, s)
       else if replace_condition force (rowset_with_max_version table_item) new_rowset
       then add_tablet_to_map env s tid sh tablet update_meta force True
       else Some (OLAP_ERR_ENGINE_INSERT_EXISTS_TABLE, s))"
proof -
  from assms(1) obtain b where "map_of (tablet_map s) tid = Some b"
    by (cases "map_of (tablet_map s) tid") (simp_all add: table_arr_def)
  then have idx: "tm_index tid (tablet_map s) = tablet_map s"
    by (rule tm_index_present)
  have st: "s\<lparr>tablet_map := tablet_map s\<rparr> = s" by simp
  have 1: "add_tablet_unlock env s tid sh tablet update_meta force =
     (if \<not> force \<and> tablet_path table_item = tablet_path tablet
             then Some (OLAP_ERR_ENGINE_INSERT_EXISTS_TABLE, s)
             else if \<not> force \<and> data_dir table_item = data_dir tablet
             then Some (OLAP_ERR_ENGINE_INSERT_EXISTS_TABLE, s)
             else
                    let old_rowset = rowset_with_max_version table_item;
                        old_time = (case old_rowset of None \<Rightarrow> -1 | Some r \<Rightarrow> rs_creation_time r);
                        new_time = rs_creation_time new_rowset;
                        old_version = (case old_rowset of None \<Rightarrow> -1
                                       | Some r \<Rightarrow> int32_of (end_version r));
                        new_version = int32_of (end_version new_rowset);
                        keep_files = (if force then True else False)
                    in if force \<or> (sint old_version < sint new_version
                          \<or> (new_version = old_version \<and> sint old_time < sint new_time))
                       then add_tablet_to_map env s tid sh tablet update_meta keep_files True
                       else Some (OLAP_ERR_ENGINE_INSERT_EXISTS_TABLE, s))"
    unfolding add_tablet_unlock_def idx st
    by (simp only: Let_def assms option.case)
  show ?thesis
    unfolding 1
    by (cases "rowset_with_max_version table_item")
       (auto simp add: Let_def same_place_def replace_condition_def sint_eq_iff_32
          sint_eq_minus1_iff_32)
qed

text \<open>Evaluation of an addition on the example data.\<close>

lemmas add_eval =
  add_tablet_unlock_def add_tablet_to_map_def TabletMetaManager_save_def
  register_tablet_into_dir_def deregister_tablet_from_dir_def tm_index_def tm_erase_def
  table_arr_def sort_by_creation_time_def get_tablet_with_no_lock_def equal_def
  drop_tablet_unlock_def drop_tablet_directly_unlocked_def save_meta_def set_tablet_state_def
  meta_key_def rowset_with_max_version_def end_version_def int32_of_def Let_def
  example_env_def example_tablet_def example_rowset_def empty_engine_def incoming_tablet_def

subsection \<open>No empty bucket in the registry map\<close>

lemma registry_invariant_iff:
  "registry_invariant s \<longleftrightarrow> (\<forall>k. map_of (tablet_map s) k \<noteq> Some [])"
proof
  assume inv: "registry_invariant s"
  show "\<forall>k. map_of (tablet_map s) k \<noteq> Some []"
  proof
    fix k
    show "map_of (tablet_map s) k \<noteq> Some []"
    proof (cases "k \<in> fst ` set (tablet_map s)")
      case True
      with inv show ?thesis by (auto simp: registry_invariant_def list_all_iff)
    next
      case False
      then have "map_of (tablet_map s) k = None" by (simp add: map_of_eq_None_iff)
      then show ?thesis by simp
    qed
  qed
next
  assume "\<forall>k. map_of (tablet_map s) k \<noteq> Some []"
  then show "registry_invariant s" by (simp add: registry_invariant_def list_all_iff)
qed

lemma registry_invariant_tablet_map:
  "tablet_map s' = tablet_map s \<Longrightarrow> registry_invariant s \<Longrightarrow> registry_invariant s'"
  by (simp add: registry_invariant_iff)

lemma registry_invariant_put:
  assumes "\<forall>k. k \<noteq> tid \<longrightarrow> map_of (tablet_map s) k \<noteq> Some []" and "arr \<noteq> []"
    and "tablet_map s' = tm_put tid arr (tablet_map s)"
  shows "registry_invariant s'"
  using assms by (simp add: registry_invariant_iff map_of_tm_put)

lemma registry_invariant_erase:
  assumes "\<forall>k. k \<noteq> tid \<longrightarrow> map_of (tablet_map s) k \<noteq> Some []"
    and "tablet_map s' = tm_erase tid (tm_put tid arr (tablet_map s))"
  shows "registry_invariant s'"
  using assms by (simp add: registry_invariant_iff map_of_tm_put map_of_tm_erase)

lemma update_first_Nil_iff [simp]: "update_first P f xs = [] \<longleftrightarrow> xs = []"
  by (cases xs) simp_all

lemma registry_invariant_update_registered:
  "registry_invariant s \<Longrightarrow> registry_invariant (update_registered s rid rsh f)"
  by (auto simp: registry_invariant_iff update_registered_def map_of_tm_put split: option.splits)

lemma drop_loop_saves_succeed:
  "saves_succeed env \<Longrightarrow> fst (drop_loop env tid sh keep ts s) = OLAP_SUCCESS"
proof (induction ts arbitrary: s)
  case Nil
  show ?case by simp
next
  case (Cons t ts)
  show ?case
  proof (cases "equal t tid sh")
    case False
    with Cons.IH [OF Cons.prems, of s] show ?thesis by (auto split: prod.splits)
  next
    case True
    show ?thesis
    proof (cases keep)
      case True
      with \<open>equal t tid sh\<close> Cons.IH [OF Cons.prems, of s] show ?thesis by simp
    next
      case False
      obtain s1 where sv: "save_meta env s (set_tablet_state TABLET_SHUTDOWN t) = (OLAP_SUCCESS, s1)"
        using Cons.prems by (simp add: save_meta_def saves_succeed_def)
      show ?thesis
        using True False Cons.IH [OF Cons.prems] by (simp add: sv)
    qed
  qed
qed

lemma registry_invariant_drop_directly:
  assumes "registry_invariant s" and "saves_succeed env"
  shows "registry_invariant (snd (drop_tablet_directly_unlocked env s tid sh keep))"
proof (cases "get_tablet_with_no_lock s tid sh")
  case None
  with assms(1) show ?thesis by (simp add: drop_tablet_directly_unlocked_def)
next
  case (Some d)
  obtain res arr s1 where l: "drop_loop env tid sh keep (table_arr (tablet_map s) tid) s = (res, arr, s1)"
    by (cases "drop_loop env tid sh keep (table_arr (tablet_map s) tid) s") auto
  have res: "res = OLAP_SUCCESS"
    using drop_loop_saves_succeed [OF assms(2), of tid sh keep "table_arr (tablet_map s) tid" s] l by simp
  have m1: "tablet_map s1 = tablet_map s"
    using drop_loop_tablet_map [of env tid sh keep "table_arr (tablet_map s) tid" s] l by simp
  let ?s' = "snd (drop_tablet_directly_unlocked env s tid sh keep)"
  have tm: "tablet_map ?s' = (if arr = [] then tm_erase tid (tm_put tid arr (tablet_map s))
                              else tm_put tid arr (tablet_map s))"
    using Some l res m1
    by (simp add: drop_tablet_directly_unlocked_def Let_def deregister_tablet_from_dir_def
          table_arr_def map_of_tm_put)
  have ex: "\<forall>k. k \<noteq> tid \<longrightarrow> map_of (tablet_map s) k \<noteq> Some []"
    using assms(1) by (simp add: registry_invariant_iff)
  show ?thesis
  proof (cases "arr = []")
    case True
    with tm have "tablet_map ?s' = tm_erase tid (tm_put tid arr (tablet_map s))" by simp
    with ex show ?thesis by (rule registry_invariant_erase)
  next
    case False
    with tm have "tablet_map ?s' = tm_put tid arr (tablet_map s)" by simp
    with ex False show ?thesis by (rule registry_invariant_put)
  qed
qed

lemma drop_tablet_unlock_related:
  assumes "get_tablet_with_no_lock s tid sh = Some target" and "alter_task target = Some task"
    and "get_tablet_with_no_lock s (related_tablet_id task) (related_schema_hash task) = Some related"
  shows "drop_tablet_unlock env s tid sh keep =
     (if sint (creation_time target) < sint (creation_time related)
         \<and> alter_state task \<noteq> ALTER_FINISHED
      then Some (OLAP_ERR_PREVIOUS_SCHEMA_CHANGE_NOT_FINISHED, s)
      else (case save_meta env
                  (update_registered s (related_tablet_id task) (related_schema_hash task)
                     delete_alter_task)
                  (delete_alter_task related) of
              (res, s2) \<Rightarrow>
                if res \<noteq> OLAP_SUCCESS then None
                else Some (drop_tablet_directly_unlocked env s2 tid sh keep)))"
  using assms by (simp add: drop_tablet_unlock_def Let_def)

lemma registry_invariant_drop_unlock:
  assumes "registry_invariant s" and "saves_succeed env"
    and "drop_tablet_unlock env s tid sh keep = Some (res, s')"
  shows "registry_invariant s'"
proof (cases "get_tablet_with_no_lock s tid sh")
  case None
  with assms show ?thesis by (simp add: drop_tablet_unlock_def)
next
  case (Some target)
  note target = this
  show ?thesis
  proof (cases "alter_task target")
    case None
    with assms(3) target have "s' = snd (drop_tablet_directly_unlocked env s tid sh keep)"
      by (auto simp: drop_tablet_unlock_def)
    with assms(1,2) show ?thesis by (simp add: registry_invariant_drop_directly)
  next
    case (Some task)
    note task = this
    show ?thesis
    proof (cases "get_tablet_with_no_lock s (related_tablet_id task) (related_schema_hash task)")
      case None
      with assms(3) target task have "s' = snd (drop_tablet_directly_unlocked env s tid sh keep)"
        by (auto simp: drop_tablet_unlock_def)
      with assms(1,2) show ?thesis by (simp add: registry_invariant_drop_directly)
    next
      case (Some related)
      note unf = drop_tablet_unlock_related [OF target task Some, of env keep]
      let ?s1 = "update_registered s (related_tablet_id task) (related_schema_hash task) delete_alter_task"
      obtain r s2 where sv: "save_meta env ?s1 (delete_alter_task related) = (r, s2)"
        by (cases "save_meta env ?s1 (delete_alter_task related)")
      have "tablet_map s2 = tablet_map ?s1"
        using tablet_map_save_meta [of env ?s1 "delete_alter_task related"] sv by simp
      then have i2: "registry_invariant s2"
        using registry_invariant_update_registered [OF assms(1)]
        by (rule registry_invariant_tablet_map)
      show ?thesis
      proof (cases "sint (creation_time target) < sint (creation_time related)
                    \<and> alter_state task \<noteq> ALTER_FINISHED")
        case True
        with assms(3) have "s' = s" unfolding unf by simp
        with assms(1) show ?thesis by simp
      next
        case False
        have r: "r = OLAP_SUCCESS"
          using assms(3) False unfolding unf sv by (cases "r = OLAP_SUCCESS") simp_all
        have "s' = snd (drop_tablet_directly_unlocked env s2 tid sh keep)"
          using assms(3) False unfolding unf sv r by auto
        with i2 assms(2) show ?thesis by (simp add: registry_invariant_drop_directly)
      qed
    qed
  qed
qed


lemma TabletMetaManager_save_saves_succeed:
  "saves_succeed env \<Longrightarrow> fst (TabletMetaManager_save env s t) = OLAP_SUCCESS"
  by (simp add: TabletMetaManager_save_def saves_succeed_def)

lemma registry_invariant_add_to_map_fresh:
  assumes "\<forall>k. k \<noteq> tid \<longrightarrow> map_of (tablet_map s) k \<noteq> Some []" and "saves_succeed env"
    and "add_tablet_to_map env s tid sh tablet update_meta keep False = Some (res, s')"
  shows "registry_invariant s'"
proof -
  obtain r1 s1 where s1: "(if update_meta then TabletMetaManager_save env s tablet else (OLAP_SUCCESS, s)) = (r1, s1)"
    by (cases "if update_meta then TabletMetaManager_save env s tablet else (OLAP_SUCCESS, s)")
  have r1: "r1 = OLAP_SUCCESS"
    using s1 TabletMetaManager_save_saves_succeed [OF assms(2), of s tablet]
    by (cases update_meta) auto
  have m1: "tablet_map s1 = tablet_map s"
  proof (cases update_meta)
    case True
    with s1 have "s1 = snd (TabletMetaManager_save env s tablet)" by simp
    then show ?thesis by simp
  next
    case False
    with s1 show ?thesis by simp
  qed
  have "tablet_map s' =
      tm_put tid (sort_by_creation_time (table_arr (tablet_map s1) tid @ [tablet])) (tablet_map s1)"
    using assms(3) unfolding add_tablet_to_map_no_drop s1 r1 by auto
  then have tm: "tablet_map s' =
      tm_put tid (sort_by_creation_time (table_arr (tablet_map s) tid @ [tablet])) (tablet_map s)"
    by (simp add: m1)
  have ne: "sort_by_creation_time (table_arr (tablet_map s) tid @ [tablet]) \<noteq> []"
    using length_sort [of "\<lambda>t. sint (creation_time t)" "table_arr (tablet_map s) tid @ [tablet]"]
    by (auto simp: sort_by_creation_time_def simp del: length_sort)
  from assms(1) ne tm show ?thesis by (rule registry_invariant_put)
qed

lemma registry_invariant_add_to_map_drop_old:
  assumes "registry_invariant s" and "saves_succeed env"
    and "add_tablet_to_map env s tid sh tablet update_meta keep True = Some (res, s')"
  shows "registry_invariant s'"
proof -
  obtain r1 s1 where s1: "(if update_meta then TabletMetaManager_save env s tablet else (OLAP_SUCCESS, s)) = (r1, s1)"
    by (cases "if update_meta then TabletMetaManager_save env s tablet else (OLAP_SUCCESS, s)")
  have r1: "r1 = OLAP_SUCCESS"
    using s1 TabletMetaManager_save_saves_succeed [OF assms(2), of s tablet]
    by (cases update_meta) auto
  have m1: "tablet_map s1 = tablet_map s"
  proof (cases update_meta)
    case True
    with s1 have "s1 = snd (TabletMetaManager_save env s tablet)" by simp
    then show ?thesis by simp
  next
    case False
    with s1 show ?thesis by simp
  qed
  from m1 assms(1) have i1: "registry_invariant s1" by (rule registry_invariant_tablet_map)
  obtain r2 s2 where d: "drop_tablet_unlock env s1 tid sh keep = Some (r2, s2)"
    using assms(3) unfolding add_tablet_to_map_def s1 r1
    by (cases "drop_tablet_unlock env s1 tid sh keep") auto
  from i1 assms(2) d have i2: "registry_invariant s2" by (rule registry_invariant_drop_unlock)
  show ?thesis
  proof (cases "r2 = OLAP_SUCCESS")
    case False
    with assms(3) have "s' = s2" unfolding add_tablet_to_map_def s1 r1 by (simp add: d)
    with i2 show ?thesis by simp
  next
    case True
    have tm: "tablet_map s' =
        tm_put tid (sort_by_creation_time (table_arr (tablet_map s2) tid @ [tablet])) (tablet_map s2)"
      using assms(3) unfolding add_tablet_to_map_def s1 r1
      by (auto simp add: d True register_tablet_into_dir_def)
    have ne: "sort_by_creation_time (table_arr (tablet_map s2) tid @ [tablet]) \<noteq> []"
      using length_sort [of "\<lambda>t. sint (creation_time t)" "table_arr (tablet_map s2) tid @ [tablet]"]
      by (auto simp: sort_by_creation_time_def simp del: length_sort)
    have ex: "\<forall>k. k \<noteq> tid \<longrightarrow> map_of (tablet_map s2) k \<noteq> Some []"
      using i2 by (simp add: registry_invariant_iff)
    from ex ne tm show ?thesis by (rule registry_invariant_put)
  qed
qed

lemma add_tablet_unlock_not_found:
  assumes "find (\<lambda>item. equal item tid sh) (table_arr (tablet_map s) tid) = None"
  shows "add_tablet_unlock env s tid sh tablet update_meta force =
           add_tablet_to_map env (s\<lparr>tablet_map := tm_index tid (tablet_map s)\<rparr>) tid sh tablet
             update_meta False False"
  using assms by (simp add: add_tablet_unlock_def Let_def)

lemma registry_invariant_add_unlock:
  assumes "registry_invariant s" and "saves_succeed env"
    and "add_tablet_unlock env s tid sh tablet update_meta force = Some (res, s')"
  shows "registry_invariant s'"
proof (cases "find (\<lambda>item. equal item tid sh) (table_arr (tablet_map s) tid)")
  case None
  let ?s = "s\<lparr>tablet_map := tm_index tid (tablet_map s)\<rparr>"
  have ex: "\<forall>k. k \<noteq> tid \<longrightarrow> map_of (tablet_map ?s) k \<noteq> Some []"
    using assms(1)
    by (auto simp: registry_invariant_iff tm_index_def map_of_tm_put split: option.splits)
  from assms(3) have "add_tablet_to_map env ?s tid sh tablet update_meta False False = Some (res, s')"
    unfolding add_tablet_unlock_not_found [OF None] .
  with ex assms(2) show ?thesis by (rule registry_invariant_add_to_map_fresh)
next
  case (Some table_item)
  show ?thesis
  proof (cases "rowset_with_max_version tablet")
    case None
    from Some obtain b where "map_of (tablet_map s) tid = Some b"
      by (cases "map_of (tablet_map s) tid") (simp_all add: table_arr_def)
    then have idx: "tm_index tid (tablet_map s) = tablet_map s"
      by (rule tm_index_present)
    have st: "s\<lparr>tablet_map := tablet_map s\<rparr> = s" by simp
    have "s' = s"
      using assms(3) unfolding add_tablet_unlock_def idx st Let_def Some None
      by (simp split: if_splits)
    with assms(1) show ?thesis by simp
  next
    case (Some new_rowset)
    note unf = add_tablet_unlock_found [OF \<open>find (\<lambda>item. equal item tid sh) (table_arr (tablet_map s) tid) = Some table_item\<close> Some,
                 of env update_meta force]
    show ?thesis
    proof (cases "\<not> (\<not> force \<and> same_place table_item tablet)
                  \<and> replace_condition force (rowset_with_max_version table_item) new_rowset")
      case True
      with assms(3) have "add_tablet_to_map env s tid sh tablet update_meta force True = Some (res, s')"
        unfolding unf by simp
      with assms(1,2) show ?thesis by (rule registry_invariant_add_to_map_drop_old)
    next
      case False
      with assms(3) have "s' = s" unfolding unf by (auto split: if_splits)
      with assms(1) show ?thesis by simp
    qed
  qed
qed


lemma tablet_map_save_meta_eq:
  "save_meta env s t = (res, s') \<Longrightarrow> tablet_map s' = tablet_map s"
  using tablet_map_save_meta [of env s t] by simp

lemma tablet_map_create_inital_rowset:
  "create_inital_rowset env s tablet request = Some (res, tablet', s')
     \<Longrightarrow> tablet_map s' = tablet_map s"
  by (auto simp: create_inital_rowset_def Let_def split: prod.splits option.splits if_splits
           dest: tablet_map_save_meta_eq)

lemma registry_invariant_internal_create_block:
  assumes "registry_invariant s" and "saves_succeed env"
    and "internal_create_block env s request sc ref_tablet t0 = Some (res, tablet, added, s')"
  shows "registry_invariant s'"
proof -
  obtain r1 t1 where t1: "init_tablet env t0 = (r1, t1)" by (cases "init_tablet env t0")
  show ?thesis
  proof (cases "r1 = OLAP_SUCCESS")
    case False
    with assms(3) t1 have "s' = s" by (simp add: internal_create_block_def)
    with assms(1) show ?thesis by simp
  next
    case True
    define mid where "mid =
       (if \<not> sc then create_inital_rowset env s t1 request
        else (case ref_tablet of
                None \<Rightarrow> None
              | Some r \<Rightarrow>
                  if sint (creation_time t1) \<le> sint (creation_time r)
                  then Some (OLAP_SUCCESS, set_creation_time (creation_time r + 1) t1, s)
                  else Some (OLAP_SUCCESS, t1, s)))"
    have blk: "internal_create_block env s request sc ref_tablet t0 =
       (case mid of
          None \<Rightarrow> None
        | Some (res, tablet, s1) \<Rightarrow>
            if res \<noteq> OLAP_SUCCESS then Some (res, tablet, False, s1)
            else
              (case add_tablet_unlock env s1 (req_tablet_id request) (req_schema_hash request)
                      tablet True False of
                 None \<Rightarrow> None
               | Some (res, s2) \<Rightarrow>
                   if res \<noteq> OLAP_SUCCESS then Some (res, tablet, False, s2)
                   else
                     (case get_tablet_with_no_lock s2 (req_tablet_id request)
                             (req_schema_hash request) of
                        None \<Rightarrow> Some (OLAP_ERR_TABLE_NOT_FOUND, tablet, True, s2)
                      | Some tablet_ptr \<Rightarrow> Some (OLAP_SUCCESS, tablet, True, s2))))"
      unfolding internal_create_block_def t1 mid_def using True by simp
    obtain r2 t2 s1 where mid: "mid = Some (r2, t2, s1)"
      using assms(3) unfolding blk by (cases mid) auto
    have m1: "tablet_map s1 = tablet_map s"
    proof (cases sc)
      case False
      with mid have "create_inital_rowset env s t1 request = Some (r2, t2, s1)"
        by (simp add: mid_def)
      then show ?thesis by (rule tablet_map_create_inital_rowset)
    next
      case True
      with mid show ?thesis
        by (cases ref_tablet) (auto simp: mid_def split: if_splits)
    qed
    from m1 assms(1) have i1: "registry_invariant s1" by (rule registry_invariant_tablet_map)
    show ?thesis
    proof (cases "r2 = OLAP_SUCCESS")
      case False
      with assms(3) have "s' = s1" unfolding blk mid by simp
      with i1 show ?thesis by simp
    next
      case True
      obtain r3 s2 where add: "add_tablet_unlock env s1 (req_tablet_id request)
                                 (req_schema_hash request) t2 True False = Some (r3, s2)"
        using assms(3) True unfolding blk mid
        by (cases "add_tablet_unlock env s1 (req_tablet_id request) (req_schema_hash request) t2 True False")
           auto
      from i1 assms(2) add have i2: "registry_invariant s2" by (rule registry_invariant_add_unlock)
      have "s' = s2"
        using assms(3) True unfolding blk mid
        by (cases "r3 = OLAP_SUCCESS";
            cases "get_tablet_with_no_lock s2 (req_tablet_id request) (req_schema_hash request)")
           (simp_all add: add)
      with i2 show ?thesis by simp
    qed
  qed
qed

lemma registry_invariant_internal_create:
  assumes "registry_invariant s" and "saves_succeed env"
    and "internal_create_tablet env s request sc ref_tablet data_dirs = Some (result, s')"
  shows "registry_invariant s'"
proof (cases "get_tablet_with_no_lock s (req_tablet_id request) (req_schema_hash request)")
  case (Some checked)
  with assms(3) have "s' = s" by (simp add: internal_create_tablet_def)
  with assms(1) show ?thesis by simp
next
  case None
  note none = this
  show ?thesis
  proof (cases "create_tablet_meta_and_dir env request data_dirs")
    case None
    with assms(3) none have "s' = s" by (simp add: internal_create_tablet_def)
    with assms(1) show ?thesis by simp
  next
    case (Some t0)
    obtain res tablet added s1 where
      blk: "internal_create_block env s request sc ref_tablet t0 = Some (res, tablet, added, s1)"
      using assms(3) none Some
      by (cases "internal_create_block env s request sc ref_tablet t0")
         (auto simp: internal_create_tablet_def)
    from assms(1,2) blk have i1: "registry_invariant s1"
      by (rule registry_invariant_internal_create_block)
    show ?thesis
    proof (cases "res = OLAP_SUCCESS")
      case True
      with assms(3) none Some blk have "s' = s1" by (simp add: internal_create_tablet_def)
      with i1 show ?thesis by simp
    next
      case False
      show ?thesis
      proof (cases added)
        case False
        with assms(3) none Some blk \<open>res \<noteq> OLAP_SUCCESS\<close>
        have "s' = TabletMetaManager_remove s1 (data_dir tablet) (req_tablet_id request)
                     (req_schema_hash request)"
          by (simp add: internal_create_tablet_def)
        then have "tablet_map s' = tablet_map s1" by (simp add: TabletMetaManager_remove_def)
        from this i1 show ?thesis by (rule registry_invariant_tablet_map)
      next
        case True
        obtain status s2 where d: "drop_tablet_unlock env s1 (req_tablet_id request)
                                     (req_schema_hash request) False = Some (status, s2)"
          using assms(3) none Some blk \<open>res \<noteq> OLAP_SUCCESS\<close> True
          by (cases "drop_tablet_unlock env s1 (req_tablet_id request) (req_schema_hash request) False")
             (auto simp: internal_create_tablet_def)
        from i1 assms(2) d have i2: "registry_invariant s2" by (rule registry_invariant_drop_unlock)
        from assms(3) none Some blk \<open>res \<noteq> OLAP_SUCCESS\<close> True d have "s' = s2"
          by (simp add: internal_create_tablet_def)
        with i2 show ?thesis by simp
      qed
    qed
  qed
qed

lemma registry_invariant_create_tablet:
  assumes "registry_invariant s" and "saves_succeed env"
    and "create_tablet env s request stores = Some (res, s')"
  shows "registry_invariant s'"
proof (cases "check_tablet_id_exist_unlock s (req_tablet_id request)")
  case True
  with assms(3) have "s' = s"
    by (cases "get_tablet_with_no_lock s (req_tablet_id request) (req_schema_hash request)")
       (auto simp: create_tablet_def)
  with assms(1) show ?thesis by simp
next
  case False
  obtain result s1 where ic: "internal_create_tablet env s request False None stores = Some (result, s1)"
    using assms(3) False
    by (cases "internal_create_tablet env s request False None stores") (auto simp: create_tablet_def)
  from assms(1,2) ic have i1: "registry_invariant s1" by (rule registry_invariant_internal_create)
  from assms(3) False ic have "s' = s1"
    by (cases result) (auto simp: create_tablet_def)
  with i1 show ?thesis by simp
qed

lemma registry_invariant_load_tablet_from_meta:
  assumes "registry_invariant s" and "saves_succeed env"
    and "load_tablet_from_meta env s d tid sh meta_binary update_meta force = Some (res, s')"
  shows "registry_invariant s'"
proof (cases "deserialize env meta_binary")
  case None
  with assms(3) have "s' = s" by (simp add: load_tablet_from_meta_def)
  with assms(1) show ?thesis by simp
next
  case (Some m)
  show ?thesis
  proof (cases "tablet_state m = TABLET_SHUTDOWN")
    case True
    with assms(3) Some have "tablet_map s' = tablet_map s"
      by (auto simp: load_tablet_from_meta_def Let_def)
    from this assms(1) show ?thesis by (rule registry_invariant_tablet_map)
  next
    case False
    note live = this
    show ?thesis
    proof (cases "fst (max_version (create_tablet_from_meta m d)) = -1
                  \<and> alter_task (create_tablet_from_meta m d) = None")
      case True
      with assms(3) Some live have "s' = s" by (auto simp: load_tablet_from_meta_def Let_def)
      with assms(1) show ?thesis by simp
    next
      case False
      obtain r1 t1 where t1: "init_tablet env (create_tablet_from_meta m d) = (r1, t1)"
        by (cases "init_tablet env (create_tablet_from_meta m d)")
      show ?thesis
      proof (cases "r1 = OLAP_SUCCESS")
        case False
        with assms(3) Some live \<open>\<not> (fst (max_version (create_tablet_from_meta m d)) = -1
                  \<and> alter_task (create_tablet_from_meta m d) = None)\<close> t1
        have "s' = s" by (auto simp: load_tablet_from_meta_def Let_def)
        with assms(1) show ?thesis by simp
      next
        case True
        with assms(3) Some live \<open>\<not> (fst (max_version (create_tablet_from_meta m d)) = -1
                  \<and> alter_task (create_tablet_from_meta m d) = None)\<close> t1
        have "add_tablet_unlock env s tid sh t1 update_meta force = Some (res, s')"
          by (auto simp: load_tablet_from_meta_def Let_def)
        with assms(1,2) show ?thesis by (rule registry_invariant_add_unlock)
      qed
    qed
  qed
qed

lemma registry_invariant_perform:
  assumes "registry_invariant s" and "saves_succeed env"
    and "perform env s operation = Some (res, s')"
  shows "registry_invariant s'"
proof (cases operation)
  case (Create_tablet request stores)
  with assms(3) have "create_tablet env s request stores = Some (res, s')" by simp
  with assms(1,2) show ?thesis by (rule registry_invariant_create_tablet)
next
  case (Drop_tablet tid sh keep_files)
  with assms(3) have "drop_tablet_unlock env s tid sh keep_files = Some (res, s')"
    by (simp add: drop_tablet_def)
  with assms(1,2) show ?thesis by (rule registry_invariant_drop_unlock)
next
  case (Load_tablet_from_meta d tid sh meta_binary update_meta force)
  with assms(3) have "load_tablet_from_meta env s d tid sh meta_binary update_meta force = Some (res, s')"
    by simp
  with assms(1,2) show ?thesis by (rule registry_invariant_load_tablet_from_meta)
qed

text \<open>
  Claim C3, as amended. Over every sequence of \<open>create_tablet\<close>, \<open>drop_tablet\<close> and
  \<open>load_tablet_from_meta\<close> operations that runs to its end, failing operations
  included, each performed while the meta store accepts every save: if no key of the
  registry map is bound to an empty instance sequence before the sequence, none is after
  it. In particular a bucket emptied by a drop is erased.
\<close>

theorem registry_invariant_run:
  assumes "registry_invariant s"
    and "\<forall>step \<in> set ops. saves_succeed (fst step)"
    and "run s ops = Some s'"
  shows "registry_invariant s'"
  using assms
proof (induction ops arbitrary: s)
  case Nil
  then show ?case by simp
next
  case (Cons step ops)
  obtain env operation where step: "step = (env, operation)" by (cases step)
  from Cons.prems(3) step obtain res s1 where
    p: "perform env s operation = Some (res, s1)" and r: "run s1 ops = Some s'"
    by (cases "perform env s operation") auto
  from Cons.prems(2) step have sv: "saves_succeed env" by simp
  from Cons.prems(1) sv p have "registry_invariant s1" by (rule registry_invariant_perform)
  moreover from Cons.prems(2) have "\<forall>step \<in> set ops. saves_succeed (fst step)" by simp
  ultimately show ?case using r by (rule Cons.IH)
qed

text \<open>
  Evaluation of a run on the example data. The example run loads a tablet, creates it
  again, is refused a second schema hash and a tablet of version \<open>0\<close>, fails to parse
  a meta, and drops the tablet.
\<close>

lemmas run_eval =
  create_tablet_def check_tablet_id_exist_unlock_def create_inital_rowset_def drop_tablet_def
  load_tablet_from_meta_def create_tablet_from_meta_def max_version_def init_tablet_def
  TabletMetaManager_remove_def

theorem registry_invariant_run_witness:
  "registry_invariant empty_engine
   \<and> run empty_engine example_operations = Some (the (run empty_engine example_operations))
   \<and> registry_invariant (the (run empty_engine example_operations))
   \<and> run_statuses empty_engine example_operations
       = Some [OLAP_SUCCESS, OLAP_SUCCESS, OLAP_ERR_CE_TABLET_ID_EXIST,
               OLAP_ERR_CE_CMD_PARAMS_ERROR, OLAP_ERR_HEADER_PB_PARSE_FAILED, OLAP_SUCCESS]
   \<and> map_option (map (\<lambda>e. (fst e, map schema_hash (snd e))) \<circ> tablet_map)
        (run empty_engine (take 5 example_operations)) = Some [(100, [7])]
   \<and> map_option tablet_map (run empty_engine example_operations) = Some []"
proof -
  have i: "registry_invariant empty_engine"
    by (simp add: registry_invariant_def empty_engine_def)
  have sv: "\<forall>step \<in> set example_operations. saves_succeed (fst step)"
    by (simp add: example_operations_def saves_succeed_def loading_env_def example_env_def)
  have r: "run empty_engine example_operations = Some (the (run empty_engine example_operations))"
    by (simp add: example_operations_def example_request_def loading_env_def run_eval
          create_eval add_eval)
  have st: "run_statuses empty_engine example_operations
       = Some [OLAP_SUCCESS, OLAP_SUCCESS, OLAP_ERR_CE_TABLET_ID_EXIST,
               OLAP_ERR_CE_CMD_PARAMS_ERROR, OLAP_ERR_HEADER_PB_PARSE_FAILED, OLAP_SUCCESS]"
    by (simp add: example_operations_def example_request_def loading_env_def run_eval
          create_eval add_eval)
  have m5: "map_option (map (\<lambda>e. (fst e, map schema_hash (snd e))) \<circ> tablet_map)
        (run empty_engine (take 5 example_operations)) = Some [(100, [7])]"
    by (simp add: example_operations_def example_request_def loading_env_def run_eval
          create_eval add_eval)
  have m: "map_option tablet_map (run empty_engine example_operations) = Some []"
    by (simp add: example_operations_def example_request_def loading_env_def run_eval
          create_eval add_eval)
  from registry_invariant_run [OF i sv r] i r st m5 m show ?thesis by simp
qed

text \<open>
  A failed save leaves an empty bucket behind. Loading into an empty registry creates the
  bucket by \<^verbatim>\<open>_tablet_map[tablet_id]\<close> before \<^verbatim>\<open>TabletMetaManager::save\<close> fails;
  dropping the only instance of a bucket erases it from the list before
  \<^verbatim>\<open>save_meta\<close> fails and returns.
\<close>

theorem registry_invariant_failed_save_counterexample:
  "registry_invariant empty_engine
   \<and> run empty_engine [(failing_store_env, Load_tablet_from_meta ''/d1'' 100 7 ''hdr'' True False)]
       = Some (empty_engine\<lparr>tablet_map := [(100, [])]\<rparr>)
   \<and> \<not> registry_invariant (empty_engine\<lparr>tablet_map := [(100, [])]\<rparr>)
   \<and> registry_invariant engine_100_7
   \<and> run engine_100_7 [(failing_store_env, Drop_tablet 100 7 False)]
       = Some (engine_100_7\<lparr>tablet_map := [(100, [])]\<rparr>)
   \<and> \<not> registry_invariant (engine_100_7\<lparr>tablet_map := [(100, [])]\<rparr>)"
  by (simp add: registry_invariant_def failing_store_env_def engine_100_7_def run_eval add_eval)

subsection \<open>Replacing a registered instance\<close>

lemma drop_tablet_directly_unlocked_saves_succeed:
  assumes "saves_succeed env" and "get_tablet_with_no_lock s tid sh = Some d"
  shows "fst (drop_tablet_directly_unlocked env s tid sh keep) = OLAP_SUCCESS"
proof -
  obtain res arr s1 where l: "drop_loop env tid sh keep (table_arr (tablet_map s) tid) s = (res, arr, s1)"
    by (cases "drop_loop env tid sh keep (table_arr (tablet_map s) tid) s") auto
  have res: "res = OLAP_SUCCESS"
    using drop_loop_saves_succeed [OF assms(1), of tid sh keep "table_arr (tablet_map s) tid" s] l by simp
  show ?thesis
    using assms(2) l res
    by (simp add: drop_tablet_directly_unlocked_def Let_def deregister_tablet_from_dir_def)
qed

lemma add_tablet_to_map_drop_old_succeeds:
  assumes "saves_succeed env"
    and "get_tablet_with_no_lock s tid sh = Some item" and "alter_task item = None"
  shows "\<exists>s'. add_tablet_to_map env s tid sh tablet update_meta keep True = Some (OLAP_SUCCESS, s')"
proof -
  obtain r1 s1 where s1: "(if update_meta then TabletMetaManager_save env s tablet else (OLAP_SUCCESS, s)) = (r1, s1)"
    by (cases "if update_meta then TabletMetaManager_save env s tablet else (OLAP_SUCCESS, s)")
  have r1: "r1 = OLAP_SUCCESS"
    using s1 TabletMetaManager_save_saves_succeed [OF assms(1), of s tablet]
    by (cases update_meta) auto
  have m1: "tablet_map s1 = tablet_map s"
  proof (cases update_meta)
    case True
    with s1 have "s1 = snd (TabletMetaManager_save env s tablet)" by simp
    then show ?thesis by simp
  next
    case False
    with s1 show ?thesis by simp
  qed
  have g1: "get_tablet_with_no_lock s1 tid sh = Some item"
    using assms(2) m1 by (simp add: get_tablet_with_no_lock_def)
  obtain r2 s2 where dd: "drop_tablet_directly_unlocked env s1 tid sh keep = (r2, s2)"
    by (cases "drop_tablet_directly_unlocked env s1 tid sh keep")
  have r2: "r2 = OLAP_SUCCESS"
    using drop_tablet_directly_unlocked_saves_succeed [OF assms(1) g1, of keep] dd by simp
  have d: "drop_tablet_unlock env s1 tid sh keep = Some (OLAP_SUCCESS, s2)"
    using g1 assms(3) dd r2 by (simp add: drop_tablet_unlock_def)
  show ?thesis
    unfolding add_tablet_to_map_def s1 r1
    by (simp add: d register_tablet_into_dir_def)
qed

lemma get_tablet_of_find:
  "find (\<lambda>item. equal item tid sh) (table_arr (tablet_map s) tid) = Some item \<Longrightarrow>
     get_tablet_with_no_lock s tid sh = Some item"
  by (cases "map_of (tablet_map s) tid") (simp_all add: get_tablet_with_no_lock_def table_arr_def)

lemma shutdown_tablets_save_meta:
  "save_meta env s t = (res, s') \<Longrightarrow> shutdown_tablets s' = shutdown_tablets s"
  by (auto simp: save_meta_def Let_def split: if_splits)

lemma drop_loop_success_queue:
  "fst (drop_loop env tid sh keep ts s) = OLAP_SUCCESS \<Longrightarrow>
     shutdown_tablets (snd (snd (drop_loop env tid sh keep ts s)))
       = shutdown_tablets s
         @ (if keep then []
            else map (set_tablet_state TABLET_SHUTDOWN) (filter (\<lambda>t. equal t tid sh) ts))"
proof (induction ts arbitrary: s)
  case Nil
  show ?case by simp
next
  case (Cons t ts)
  show ?case
  proof (cases "equal t tid sh")
    case False
    with Cons.prems Cons.IH [of s] show ?thesis by (auto split: prod.splits)
  next
    case True
    show ?thesis
    proof (cases keep)
      case True
      with \<open>equal t tid sh\<close> Cons.prems Cons.IH [of s] show ?thesis by simp
    next
      case False
      obtain r s1 where sv: "save_meta env s (set_tablet_state TABLET_SHUTDOWN t) = (r, s1)"
        by (cases "save_meta env s (set_tablet_state TABLET_SHUTDOWN t)")
      from sv have q: "shutdown_tablets s1 = shutdown_tablets s"
        by (rule shutdown_tablets_save_meta)
      show ?thesis
        using True False sv q Cons.prems
          Cons.IH [of "s1\<lparr>shutdown_tablets := shutdown_tablets s1 @ [set_tablet_state TABLET_SHUTDOWN t]\<rparr>"]
        by (cases "r = OLAP_SUCCESS") simp_all
    qed
  qed
qed

lemma drop_tablet_directly_unlocked_effect:
  assumes "drop_tablet_directly_unlocked env s tid sh keep = (OLAP_SUCCESS, s')"
  shows "(\<forall>k. k \<noteq> tid \<longrightarrow> map_of (tablet_map s') k = map_of (tablet_map s) k)
     \<and> shutdown_tablets s'
         = shutdown_tablets s
           @ (if keep then []
              else map (set_tablet_state TABLET_SHUTDOWN)
                     (filter (\<lambda>t. equal t tid sh) (table_arr (tablet_map s) tid)))"
proof -
  obtain d where d: "get_tablet_with_no_lock s tid sh = Some d"
    using assms by (cases "get_tablet_with_no_lock s tid sh") (simp_all add: drop_tablet_directly_unlocked_def)
  obtain res arr s1 where l: "drop_loop env tid sh keep (table_arr (tablet_map s) tid) s = (res, arr, s1)"
    by (cases "drop_loop env tid sh keep (table_arr (tablet_map s) tid) s") auto
  have res: "res = OLAP_SUCCESS"
    using assms d l by (cases "res = OLAP_SUCCESS") (simp_all add: drop_tablet_directly_unlocked_def Let_def)
  have m1: "tablet_map s1 = tablet_map s"
    using drop_loop_tablet_map [of env tid sh keep "table_arr (tablet_map s) tid" s] l by simp
  have q1: "shutdown_tablets s1 = shutdown_tablets s
           @ (if keep then []
              else map (set_tablet_state TABLET_SHUTDOWN)
                     (filter (\<lambda>t. equal t tid sh) (table_arr (tablet_map s) tid)))"
    using drop_loop_success_queue [of env tid sh keep "table_arr (tablet_map s) tid" s] l res by simp
  have tm: "tablet_map s' = (if arr = [] then tm_erase tid (tm_put tid arr (tablet_map s1))
                         else tm_put tid arr (tablet_map s1))"
    using assms d l res
    by (auto simp: drop_tablet_directly_unlocked_def Let_def deregister_tablet_from_dir_def
          table_arr_def map_of_tm_put)
  have q: "shutdown_tablets s' = shutdown_tablets s1"
    using assms d l res
    by (auto simp: drop_tablet_directly_unlocked_def Let_def deregister_tablet_from_dir_def
          split: if_splits)
  from tm m1 have "\<forall>k. k \<noteq> tid \<longrightarrow> map_of (tablet_map s') k = map_of (tablet_map s) k"
    by (simp add: map_of_tm_put map_of_tm_erase)
  with q q1 show ?thesis by simp
qed

lemma add_tablet_to_map_drop_old_effect:
  assumes "add_tablet_to_map env s tid sh tablet update_meta keep True = Some (OLAP_SUCCESS, s')"
    and "get_tablet_with_no_lock s tid sh = Some item" and "alter_task item = None"
  shows "table_arr (tablet_map s') tid
           = sort_by_creation_time
               (filter (\<lambda>t. \<not> equal t tid sh) (table_arr (tablet_map s) tid) @ [tablet])
     \<and> (\<forall>k. k \<noteq> tid \<longrightarrow> map_of (tablet_map s') k = map_of (tablet_map s) k)
     \<and> shutdown_tablets s'
         = shutdown_tablets s
           @ (if keep then []
              else map (set_tablet_state TABLET_SHUTDOWN)
                     (filter (\<lambda>t. equal t tid sh) (table_arr (tablet_map s) tid)))"
proof -
  obtain r1 s1 where s1: "(if update_meta then TabletMetaManager_save env s tablet else (OLAP_SUCCESS, s)) = (r1, s1)"
    by (cases "if update_meta then TabletMetaManager_save env s tablet else (OLAP_SUCCESS, s)")
  have r1: "r1 = OLAP_SUCCESS"
    using assms(1) unfolding add_tablet_to_map_def s1 by (cases "r1 = OLAP_SUCCESS") simp_all
  have m1: "tablet_map s1 = tablet_map s" and q1: "shutdown_tablets s1 = shutdown_tablets s"
    using s1 by (auto simp: TabletMetaManager_save_def Let_def split: if_splits)
  have g1: "get_tablet_with_no_lock s1 tid sh = Some item"
    using assms(2) m1 by (simp add: get_tablet_with_no_lock_def)
  obtain r2 s2 where dd: "drop_tablet_directly_unlocked env s1 tid sh keep = (r2, s2)"
    by (cases "drop_tablet_directly_unlocked env s1 tid sh keep")
  have d: "drop_tablet_unlock env s1 tid sh keep = Some (r2, s2)"
    using g1 assms(3) dd by (simp add: drop_tablet_unlock_def)
  have r2: "r2 = OLAP_SUCCESS"
    using assms(1) unfolding add_tablet_to_map_def s1 r1 by (cases "r2 = OLAP_SUCCESS") (simp_all add: d)
  have s': "s' = (snd (register_tablet_into_dir s2 tablet))
             \<lparr>tablet_map := tm_put tid (sort_by_creation_time (table_arr (tablet_map s2) tid @ [tablet])) (tablet_map s2)\<rparr>"
    using assms(1) unfolding add_tablet_to_map_def s1 r1
    by (auto simp add: d r2 register_tablet_into_dir_def)
  have b: "table_arr (tablet_map s') tid
                  = sort_by_creation_time (table_arr (tablet_map s2) tid @ [tablet])"
    unfolding s' by (simp add: table_arr_def map_of_tm_put)
  have o: "\<forall>k. k \<noteq> tid \<longrightarrow> map_of (tablet_map s') k = map_of (tablet_map s2) k"
    unfolding s' by (simp add: map_of_tm_put)
  have q: "shutdown_tablets s' = shutdown_tablets s2"
    unfolding s' by (simp add: register_tablet_into_dir_def)
  from dd r2 have dd': "drop_tablet_directly_unlocked env s1 tid sh keep = (OLAP_SUCCESS, s2)" by simp
  from drop_tablet_directly_unlocked_success [OF dd'] drop_tablet_directly_unlocked_effect [OF dd']
  show ?thesis unfolding b q using o m1 q1 by simp
qed

lemma add_tablet_to_map_save_fails:
  assumes "meta_manager_save env tablet \<noteq> OLAP_SUCCESS"
  shows "add_tablet_to_map env s tid sh tablet True keep drop_old
           = Some (meta_manager_save env tablet, s)"
  using assms by (simp add: add_tablet_to_map_def TabletMetaManager_save_def Let_def)

lemma replace_condition_stored:
  assumes "case old_rowset of None \<Rightarrow> True | Some r \<Rightarrow> fits_int32 r" and "fits_int32 new_rowset"
  shows "replace_condition force old_rowset new_rowset
           = stored_replace_condition force old_rowset new_rowset"
  using assms
  by (cases old_rowset)
     (simp_all add: replace_condition_def stored_replace_condition_def fits_int32_def
        sint_int32_of Let_def)

lemma add_tablet_to_map_drop_refused:
  assumes "update_meta \<longrightarrow> meta_manager_save env tablet = OLAP_SUCCESS"
    and "get_tablet_with_no_lock s tid sh = Some item"
    and "alter_task item = Some task" and "alter_state task \<noteq> ALTER_FINISHED"
    and "get_tablet_with_no_lock s (related_tablet_id task) (related_schema_hash task) = Some related"
    and "sint (creation_time item) < sint (creation_time related)"
  shows "add_tablet_to_map env s tid sh tablet update_meta keep True
           = Some (OLAP_ERR_PREVIOUS_SCHEMA_CHANGE_NOT_FINISHED,
                   if update_meta then s\<lparr>meta_store := (meta_store s)(meta_key tablet \<mapsto> tablet)\<rparr>
                   else s)"
proof -
  define s1 where "s1 = (if update_meta then s\<lparr>meta_store := (meta_store s)(meta_key tablet \<mapsto> tablet)\<rparr>
                   else s)"
  have sv: "(if update_meta then TabletMetaManager_save env s tablet else (OLAP_SUCCESS, s))
              = (OLAP_SUCCESS, s1)"
    using assms(1) by (simp add: TabletMetaManager_save_def s1_def)
  have m1: "tablet_map s1 = tablet_map s" by (simp add: s1_def)
  have g1: "get_tablet_with_no_lock s1 tid sh = Some item"
    and g2: "get_tablet_with_no_lock s1 (related_tablet_id task) (related_schema_hash task) = Some related"
    using assms(2,5) m1 by (simp_all add: get_tablet_with_no_lock_def)
  have d: "drop_tablet_unlock env s1 tid sh keep
             = Some (OLAP_ERR_PREVIOUS_SCHEMA_CHANGE_NOT_FINISHED, s1)"
    using g1 g2 assms(3,4,6) by (simp add: drop_tablet_unlock_def)
  show ?thesis
    unfolding add_tablet_to_map_def sv s1_def [symmetric] by (simp add: d)
qed

text \<open>
  Claim C2, as amended. Let an instance with the given identity be registered and let the
  incoming tablet have a rowset of maximal version. The replace condition is the one of the
  claim, on the end versions as the \<^verbatim>\<open>int32_t\<close> locals of the code hold them.
  \<^item> Without \<open>force\<close>, an incoming tablet in the same place as the existing instance is
    refused with \<open>OLAP_ERR_ENGINE_INSERT_EXISTS_TABLE\<close>; the state is as before.
  \<^item> Otherwise, when the replace condition fails, the call is refused in the same way.
  \<^item> Otherwise the replacement is attempted: the call is \<open>add_tablet_to_map\<close> with
    \<open>keep_files = force\<close> and \<open>drop_old = true\<close>, which saves the incoming meta (when
    asked to), drops the existing instance through \<open>drop_tablet_unlock\<close> and inserts the
    incoming tablet, and which returns the status of the first step that fails.
  \<^item> Whenever the call returns \<open>OLAP_SUCCESS\<close>, the replace condition holds and, in the
    bucket, the incoming tablet is present and is the only instance of the identity.
  \<^item> The attempt succeeds at least when no save of a meta fails and the existing instance
    has no alter task.
  \<^item> When the end versions of both rowsets fit in 32 bits, the replace condition is the
    condition on the end versions as the rowsets store them.
  \<^item> An attempt whose save of the incoming meta fails returns the status of the save, and
    the state is as before.
  \<^item> An attempt on an existing instance that is the base of an unfinished schema change
    returns \<open>OLAP_ERR_PREVIOUS_SCHEMA_CHANGE_NOT_FINISHED\<close>: the registry is as before,
    and the incoming meta has been saved if the save was asked for.
  \<^item> When the call returns \<open>OLAP_SUCCESS\<close> and the existing instance has no alter
    task, the bucket is the old one without the instances of the identity, with the
    incoming tablet, sorted by creation time; the other buckets are as before; and unless
    \<open>force\<close> is set, the instances removed are on the shutdown queue, in state
    \<open>TABLET_SHUTDOWN\<close>.
\<close>

theorem add_tablet_unlock_existing:
  assumes "find (\<lambda>item. equal item tid sh) (table_arr (tablet_map s) tid) = Some table_item"
    and "rowset_with_max_version tablet = Some new_rowset"
  shows
    "(\<not> force \<and> same_place table_item tablet \<longrightarrow>
        add_tablet_unlock env s tid sh tablet update_meta force
          = Some (OLAP_ERR_ENGINE_INSERT_EXISTS_TABLE, s))
     \<and> (\<not> (\<not> force \<and> same_place table_item tablet)
          \<and> \<not> replace_condition force (rowset_with_max_version table_item) new_rowset \<longrightarrow>
        add_tablet_unlock env s tid sh tablet update_meta force
          = Some (OLAP_ERR_ENGINE_INSERT_EXISTS_TABLE, s))
     \<and> (\<not> (\<not> force \<and> same_place table_item tablet)
          \<and> replace_condition force (rowset_with_max_version table_item) new_rowset \<longrightarrow>
        add_tablet_unlock env s tid sh tablet update_meta force
          = add_tablet_to_map env s tid sh tablet update_meta force True)
     \<and> (\<forall>s'. add_tablet_unlock env s tid sh tablet update_meta force = Some (OLAP_SUCCESS, s') \<longrightarrow>
          replace_condition force (rowset_with_max_version table_item) new_rowset
          \<and> \<not> (\<not> force \<and> same_place table_item tablet)
          \<and> tablet \<in> set (table_arr (tablet_map s') tid)
          \<and> (\<forall>t \<in> set (table_arr (tablet_map s') tid). equal t tid sh \<longrightarrow> t = tablet))
     \<and> (\<not> (\<not> force \<and> same_place table_item tablet)
          \<and> replace_condition force (rowset_with_max_version table_item) new_rowset
          \<and> alter_task table_item = None \<and> saves_succeed env \<longrightarrow>
        (\<exists>s'. add_tablet_unlock env s tid sh tablet update_meta force = Some (OLAP_SUCCESS, s')))
     \<and> ((case rowset_with_max_version table_item of None \<Rightarrow> True | Some r \<Rightarrow> fits_int32 r)
          \<and> fits_int32 new_rowset \<longrightarrow>
        replace_condition force (rowset_with_max_version table_item) new_rowset
          = stored_replace_condition force (rowset_with_max_version table_item) new_rowset)
     \<and> (\<not> (\<not> force \<and> same_place table_item tablet)
          \<and> replace_condition force (rowset_with_max_version table_item) new_rowset
          \<and> update_meta \<and> meta_manager_save env tablet \<noteq> OLAP_SUCCESS \<longrightarrow>
        add_tablet_unlock env s tid sh tablet update_meta force
          = Some (meta_manager_save env tablet, s))
     \<and> (\<forall>task related.
          \<not> (\<not> force \<and> same_place table_item tablet)
          \<and> replace_condition force (rowset_with_max_version table_item) new_rowset
          \<and> (update_meta \<longrightarrow> meta_manager_save env tablet = OLAP_SUCCESS)
          \<and> alter_task table_item = Some task \<and> alter_state task \<noteq> ALTER_FINISHED
          \<and> get_tablet_with_no_lock s (related_tablet_id task) (related_schema_hash task)
                = Some related
          \<and> sint (creation_time table_item) < sint (creation_time related) \<longrightarrow>
        add_tablet_unlock env s tid sh tablet update_meta force
          = Some (OLAP_ERR_PREVIOUS_SCHEMA_CHANGE_NOT_FINISHED,
                  if update_meta
                  then s\<lparr>meta_store := (meta_store s)(meta_key tablet \<mapsto> tablet)\<rparr> else s))
     \<and> (\<forall>s'. add_tablet_unlock env s tid sh tablet update_meta force = Some (OLAP_SUCCESS, s')
          \<and> alter_task table_item = None \<longrightarrow>
          table_arr (tablet_map s') tid
            = sort_by_creation_time
                (filter (\<lambda>t. \<not> equal t tid sh) (table_arr (tablet_map s) tid) @ [tablet])
          \<and> (\<forall>k. k \<noteq> tid \<longrightarrow> map_of (tablet_map s') k = map_of (tablet_map s) k)
          \<and> shutdown_tablets s'
              = shutdown_tablets s
                @ (if force then []
                   else map (set_tablet_state TABLET_SHUTDOWN)
                          (filter (\<lambda>t. equal t tid sh) (table_arr (tablet_map s) tid))))"
proof -
  note unfold = add_tablet_unlock_found [OF assms, of env update_meta force]
  from assms(1) have g: "get_tablet_with_no_lock s tid sh = Some table_item"
    by (rule get_tablet_of_find)
  have att: "replace_condition force (rowset_with_max_version table_item) new_rowset
          \<and> \<not> (\<not> force \<and> same_place table_item tablet)
          \<and> add_tablet_to_map env s tid sh tablet update_meta force True = Some (OLAP_SUCCESS, s')"
    if h: "add_tablet_unlock env s tid sh tablet update_meta force = Some (OLAP_SUCCESS, s')" for s'
  proof -
    from h have c: "\<not> (\<not> force \<and> same_place table_item tablet)"
      and r: "replace_condition force (rowset_with_max_version table_item) new_rowset"
      unfolding unfold by (auto split: if_splits)
    with h have "add_tablet_to_map env s tid sh tablet update_meta force True = Some (OLAP_SUCCESS, s')"
      unfolding unfold by (simp split: if_splits)
    with c r show ?thesis by simp
  qed
  have succ: "replace_condition force (rowset_with_max_version table_item) new_rowset
          \<and> \<not> (\<not> force \<and> same_place table_item tablet)
          \<and> tablet \<in> set (table_arr (tablet_map s') tid)
          \<and> (\<forall>t \<in> set (table_arr (tablet_map s') tid). equal t tid sh \<longrightarrow> t = tablet)"
    if h: "add_tablet_unlock env s tid sh tablet update_meta force = Some (OLAP_SUCCESS, s')" for s'
  proof -
    from att [OF h] have
      "add_tablet_to_map env s tid sh tablet update_meta force True = Some (OLAP_SUCCESS, s')"
      by simp
    from add_tablet_to_map_drop_old [OF this] att [OF h] show ?thesis by simp
  qed
  have eff: "table_arr (tablet_map s') tid
            = sort_by_creation_time
                (filter (\<lambda>t. \<not> equal t tid sh) (table_arr (tablet_map s) tid) @ [tablet])
          \<and> (\<forall>k. k \<noteq> tid \<longrightarrow> map_of (tablet_map s') k = map_of (tablet_map s) k)
          \<and> shutdown_tablets s'
              = shutdown_tablets s
                @ (if force then []
                   else map (set_tablet_state TABLET_SHUTDOWN)
                          (filter (\<lambda>t. equal t tid sh) (table_arr (tablet_map s) tid)))"
    if h: "add_tablet_unlock env s tid sh tablet update_meta force = Some (OLAP_SUCCESS, s')"
      and n: "alter_task table_item = None" for s'
  proof -
    from att [OF h] have
      "add_tablet_to_map env s tid sh tablet update_meta force True = Some (OLAP_SUCCESS, s')"
      by simp
    then show ?thesis using g n by (rule add_tablet_to_map_drop_old_effect)
  qed
  have att_eq: "add_tablet_unlock env s tid sh tablet update_meta force
              = add_tablet_to_map env s tid sh tablet update_meta force True"
    if "\<not> (\<not> force \<and> same_place table_item tablet)"
      and "replace_condition force (rowset_with_max_version table_item) new_rowset"
    unfolding unfold using that by (simp only: if_False if_True)
  show ?thesis
  proof (intro conjI)
    show "\<not> force \<and> same_place table_item tablet \<longrightarrow>
        add_tablet_unlock env s tid sh tablet update_meta force
          = Some (OLAP_ERR_ENGINE_INSERT_EXISTS_TABLE, s)"
      unfolding unfold by simp
    show "\<not> (\<not> force \<and> same_place table_item tablet)
          \<and> \<not> replace_condition force (rowset_with_max_version table_item) new_rowset \<longrightarrow>
        add_tablet_unlock env s tid sh tablet update_meta force
          = Some (OLAP_ERR_ENGINE_INSERT_EXISTS_TABLE, s)"
      unfolding unfold by simp
    show "\<not> (\<not> force \<and> same_place table_item tablet)
          \<and> replace_condition force (rowset_with_max_version table_item) new_rowset \<longrightarrow>
        add_tablet_unlock env s tid sh tablet update_meta force
          = add_tablet_to_map env s tid sh tablet update_meta force True"
      unfolding unfold by simp
    show "\<forall>s'. add_tablet_unlock env s tid sh tablet update_meta force = Some (OLAP_SUCCESS, s') \<longrightarrow>
          replace_condition force (rowset_with_max_version table_item) new_rowset
          \<and> \<not> (\<not> force \<and> same_place table_item tablet)
          \<and> tablet \<in> set (table_arr (tablet_map s') tid)
          \<and> (\<forall>t \<in> set (table_arr (tablet_map s') tid). equal t tid sh \<longrightarrow> t = tablet)"
      using succ by blast
    show "\<not> (\<not> force \<and> same_place table_item tablet)
          \<and> replace_condition force (rowset_with_max_version table_item) new_rowset
          \<and> alter_task table_item = None \<and> saves_succeed env \<longrightarrow>
        (\<exists>s'. add_tablet_unlock env s tid sh tablet update_meta force = Some (OLAP_SUCCESS, s'))"
    proof
      assume a: "\<not> (\<not> force \<and> same_place table_item tablet)
          \<and> replace_condition force (rowset_with_max_version table_item) new_rowset
          \<and> alter_task table_item = None \<and> saves_succeed env"
      then have c: "\<not> (\<not> force \<and> same_place table_item tablet)"
        and r: "replace_condition force (rowset_with_max_version table_item) new_rowset"
        and at: "alter_task table_item = None" and sv: "saves_succeed env"
        by blast+
      have "\<exists>s'. add_tablet_to_map env s tid sh tablet update_meta force True = Some (OLAP_SUCCESS, s')"
        using sv g at by (rule add_tablet_to_map_drop_old_succeeds)
      then show "\<exists>s'. add_tablet_unlock env s tid sh tablet update_meta force
                              = Some (OLAP_SUCCESS, s')"
        unfolding att_eq [OF c r] .
    qed
    show "(case rowset_with_max_version table_item of None \<Rightarrow> True | Some r \<Rightarrow> fits_int32 r)
          \<and> fits_int32 new_rowset \<longrightarrow>
        replace_condition force (rowset_with_max_version table_item) new_rowset
          = stored_replace_condition force (rowset_with_max_version table_item) new_rowset"
      using replace_condition_stored [of "rowset_with_max_version table_item" new_rowset force]
      by blast
    show "\<not> (\<not> force \<and> same_place table_item tablet)
          \<and> replace_condition force (rowset_with_max_version table_item) new_rowset
          \<and> update_meta \<and> meta_manager_save env tablet \<noteq> OLAP_SUCCESS \<longrightarrow>
        add_tablet_unlock env s tid sh tablet update_meta force
          = Some (meta_manager_save env tablet, s)"
    proof
      assume a: "\<not> (\<not> force \<and> same_place table_item tablet)
          \<and> replace_condition force (rowset_with_max_version table_item) new_rowset
          \<and> update_meta \<and> meta_manager_save env tablet \<noteq> OLAP_SUCCESS"
      then have c: "\<not> (\<not> force \<and> same_place table_item tablet)"
        and r: "replace_condition force (rowset_with_max_version table_item) new_rowset"
        and u: update_meta and f: "meta_manager_save env tablet \<noteq> OLAP_SUCCESS"
        by blast+
      show "add_tablet_unlock env s tid sh tablet update_meta force
              = Some (meta_manager_save env tablet, s)"
        unfolding att_eq [OF c r] using u add_tablet_to_map_save_fails [OF f] by simp
    qed
    show "\<forall>task related.
          \<not> (\<not> force \<and> same_place table_item tablet)
          \<and> replace_condition force (rowset_with_max_version table_item) new_rowset
          \<and> (update_meta \<longrightarrow> meta_manager_save env tablet = OLAP_SUCCESS)
          \<and> alter_task table_item = Some task \<and> alter_state task \<noteq> ALTER_FINISHED
          \<and> get_tablet_with_no_lock s (related_tablet_id task) (related_schema_hash task)
                = Some related
          \<and> sint (creation_time table_item) < sint (creation_time related) \<longrightarrow>
        add_tablet_unlock env s tid sh tablet update_meta force
          = Some (OLAP_ERR_PREVIOUS_SCHEMA_CHANGE_NOT_FINISHED,
                  if update_meta
                  then s\<lparr>meta_store := (meta_store s)(meta_key tablet \<mapsto> tablet)\<rparr> else s)"
    proof (intro allI impI)
      fix task related
      assume a: "\<not> (\<not> force \<and> same_place table_item tablet)
          \<and> replace_condition force (rowset_with_max_version table_item) new_rowset
          \<and> (update_meta \<longrightarrow> meta_manager_save env tablet = OLAP_SUCCESS)
          \<and> alter_task table_item = Some task \<and> alter_state task \<noteq> ALTER_FINISHED
          \<and> get_tablet_with_no_lock s (related_tablet_id task) (related_schema_hash task)
                = Some related
          \<and> sint (creation_time table_item) < sint (creation_time related)"
      then have c: "\<not> (\<not> force \<and> same_place table_item tablet)"
        and r: "replace_condition force (rowset_with_max_version table_item) new_rowset"
        and u: "update_meta \<longrightarrow> meta_manager_save env tablet = OLAP_SUCCESS"
        and t: "alter_task table_item = Some task" and ns: "alter_state task \<noteq> ALTER_FINISHED"
        and rel: "get_tablet_with_no_lock s (related_tablet_id task) (related_schema_hash task)
                = Some related"
        and base: "sint (creation_time table_item) < sint (creation_time related)"
        by blast+
      show "add_tablet_unlock env s tid sh tablet update_meta force
          = Some (OLAP_ERR_PREVIOUS_SCHEMA_CHANGE_NOT_FINISHED,
                  if update_meta
                  then s\<lparr>meta_store := (meta_store s)(meta_key tablet \<mapsto> tablet)\<rparr> else s)"
        unfolding att_eq [OF c r] using u g t ns rel base
        by (rule add_tablet_to_map_drop_refused)
    qed
    show "\<forall>s'. add_tablet_unlock env s tid sh tablet update_meta force = Some (OLAP_SUCCESS, s')
          \<and> alter_task table_item = None \<longrightarrow>
          table_arr (tablet_map s') tid
            = sort_by_creation_time
                (filter (\<lambda>t. \<not> equal t tid sh) (table_arr (tablet_map s) tid) @ [tablet])
          \<and> (\<forall>k. k \<noteq> tid \<longrightarrow> map_of (tablet_map s') k = map_of (tablet_map s) k)
          \<and> shutdown_tablets s'
              = shutdown_tablets s
                @ (if force then []
                   else map (set_tablet_state TABLET_SHUTDOWN)
                          (filter (\<lambda>t. equal t tid sh) (table_arr (tablet_map s) tid)))"
      using eff by blast
  qed
qed

theorem add_tablet_unlock_existing_witness:
  "add_tablet_unlock example_env engine_100_7 100 7 (example_tablet 100 7 2000) True False
     = Some (OLAP_ERR_ENGINE_INSERT_EXISTS_TABLE, engine_100_7)
   \<and> add_tablet_unlock example_env engine_100_7 100 7 (incoming_tablet 1 2000) True False
     = Some (OLAP_ERR_ENGINE_INSERT_EXISTS_TABLE, engine_100_7)
   \<and> map_option fst (add_tablet_unlock example_env engine_100_7 100 7 (incoming_tablet 5 2000) True False)
     = Some OLAP_SUCCESS
   \<and> map_option (\<lambda>r. table_arr (tablet_map (snd r)) 100)
        (add_tablet_unlock example_env engine_100_7 100 7 (incoming_tablet 5 2000) True False)
     = Some [incoming_tablet 5 2000]
   \<and> map_option (\<lambda>r. shutdown_tablets (snd r))
        (add_tablet_unlock example_env engine_100_7 100 7 (incoming_tablet 5 2000) True False)
     = Some [set_tablet_state TABLET_SHUTDOWN (example_tablet 100 7 1000)]
   \<and> add_tablet_unlock failing_store_env engine_100_7 100 7 (incoming_tablet 5 2000) True False
     = Some (OLAP_ERR_IO_ERROR, engine_100_7)
   \<and> add_tablet_unlock example_env engine_schema_change 100 7 (incoming_tablet 5 2000) True False
     = Some (OLAP_ERR_PREVIOUS_SCHEMA_CHANGE_NOT_FINISHED,
             engine_schema_change
               \<lparr>meta_store := (meta_store engine_schema_change)
                  (meta_key (incoming_tablet 5 2000) \<mapsto> incoming_tablet 5 2000)\<rparr>)
   \<and> replace_condition False (Some (example_rowset 2 1000)) (example_rowset 5 2000)
   \<and> stored_replace_condition False (Some (example_rowset 2 1000)) (example_rowset 5 2000)"
proof -
  let ?old = "example_tablet 100 7 1000"
  let ?base = "(example_tablet 100 7 1000)
                 \<lparr>alter_task := Some \<lparr>alter_state = ALTER_RUNNING, related_tablet_id = 100,
                                      related_schema_hash = 9\<rparr>\<rparr>"
  let ?derived = "(example_tablet 100 9 1001)
                 \<lparr>alter_task := Some \<lparr>alter_state = ALTER_RUNNING, related_tablet_id = 100,
                                      related_schema_hash = 7\<rparr>\<rparr>"
  have f: "find (\<lambda>item. equal item 100 7) (table_arr (tablet_map engine_100_7) 100) = Some ?old"
    by (simp add: engine_100_7_def add_eval)
  have fb: "find (\<lambda>item. equal item 100 7) (table_arr (tablet_map engine_schema_change) 100)
              = Some ?base"
    by (simp add: engine_schema_change_def add_eval)
  have r0: "rowset_with_max_version (example_tablet 100 7 2000) = Some (example_rowset 2 2000)"
    and r1: "rowset_with_max_version (incoming_tablet 1 2000) = Some (example_rowset 1 2000)"
    and r5: "rowset_with_max_version (incoming_tablet 5 2000) = Some (example_rowset 5 2000)"
    and ro: "rowset_with_max_version ?old = Some (example_rowset 2 1000)"
    and rb: "rowset_with_max_version ?base = Some (example_rowset 2 1000)"
    by (simp_all add: add_eval)
  have sp0: "same_place ?old (example_tablet 100 7 2000)"
    and sp1: "\<not> same_place ?old (incoming_tablet 1 2000)"
    and sp5: "\<not> same_place ?old (incoming_tablet 5 2000)"
    and spb: "\<not> same_place ?base (incoming_tablet 5 2000)"
    by (simp_all add: same_place_def example_tablet_def incoming_tablet_def)
  have c1: "\<not> replace_condition False (Some (example_rowset 2 1000)) (example_rowset 1 2000)"
    and c5: "replace_condition False (Some (example_rowset 2 1000)) (example_rowset 5 2000)"
    by (simp_all add: replace_condition_def add_eval)
  have fits: "fits_int32 (example_rowset 2 1000)" "fits_int32 (example_rowset 5 2000)"
    by (simp_all add: fits_int32_def example_rowset_def end_version_def)
  have sv: "saves_succeed example_env"
    by (simp add: saves_succeed_def example_env_def)
  have an: "alter_task ?old = None"
    by (simp add: example_tablet_def)
  have fl: "meta_manager_save failing_store_env (incoming_tablet 5 2000) \<noteq> OLAP_SUCCESS"
    and fl': "meta_manager_save failing_store_env (incoming_tablet 5 2000) = OLAP_ERR_IO_ERROR"
    by (simp_all add: failing_store_env_def)
  have ok: "meta_manager_save example_env (incoming_tablet 5 2000) = OLAP_SUCCESS"
    by (simp add: example_env_def)
  have tk: "alter_task ?base = Some \<lparr>alter_state = ALTER_RUNNING, related_tablet_id = 100,
                                     related_schema_hash = 9\<rparr>"
    by simp
  have rel: "get_tablet_with_no_lock engine_schema_change 100 9 = Some ?derived"
    by (simp add: engine_schema_change_def add_eval)
  have older: "sint (creation_time ?base) < sint (creation_time ?derived)"
    by (simp add: example_tablet_def)
  note t0 = add_tablet_unlock_existing [OF f r0, of False example_env True]
  note t1 = add_tablet_unlock_existing [OF f r1, of False example_env True, unfolded ro]
  note t5 = add_tablet_unlock_existing [OF f r5, of False example_env True, unfolded ro]
  note tf = add_tablet_unlock_existing [OF f r5, of False failing_store_env True, unfolded ro]
  note tb = add_tablet_unlock_existing [OF fb r5, of False example_env True, unfolded rb]
  have w1: "add_tablet_unlock example_env engine_100_7 100 7 (example_tablet 100 7 2000) True False
     = Some (OLAP_ERR_ENGINE_INSERT_EXISTS_TABLE, engine_100_7)"
    using t0 [THEN conjunct1] sp0 by simp
  have w2: "add_tablet_unlock example_env engine_100_7 100 7 (incoming_tablet 1 2000) True False
     = Some (OLAP_ERR_ENGINE_INSERT_EXISTS_TABLE, engine_100_7)"
    using t1 [THEN conjunct2, THEN conjunct1] sp1 c1 by simp
  obtain s' where w3: "add_tablet_unlock example_env engine_100_7 100 7 (incoming_tablet 5 2000)
                         True False = Some (OLAP_SUCCESS, s')"
    using t5 [THEN conjunct2, THEN conjunct2, THEN conjunct2, THEN conjunct2, THEN conjunct1]
      sp5 c5 an sv by blast
  have w4: "table_arr (tablet_map s') 100
            = sort_by_creation_time
                (filter (\<lambda>t. \<not> equal t 100 7) (table_arr (tablet_map engine_100_7) 100)
                 @ [incoming_tablet 5 2000])
          \<and> (\<forall>k. k \<noteq> 100 \<longrightarrow> map_of (tablet_map s') k = map_of (tablet_map engine_100_7) k)
          \<and> shutdown_tablets s'
              = shutdown_tablets engine_100_7
                @ (if False then []
                   else map (set_tablet_state TABLET_SHUTDOWN)
                          (filter (\<lambda>t. equal t 100 7) (table_arr (tablet_map engine_100_7) 100)))"
    using t5 [THEN conjunct2, THEN conjunct2, THEN conjunct2, THEN conjunct2, THEN conjunct2,
              THEN conjunct2, THEN conjunct2, THEN conjunct2] w3 an
    by blast
  have e: "table_arr (tablet_map engine_100_7) 100 = [?old]" "shutdown_tablets engine_100_7 = []"
    by (simp_all add: engine_100_7_def empty_engine_def table_arr_def)
  have eq: "equal ?old 100 7"
    by (simp add: equal_def example_tablet_def)
  have w5: "table_arr (tablet_map s') 100 = [incoming_tablet 5 2000]"
    and w6: "shutdown_tablets s' = [set_tablet_state TABLET_SHUTDOWN ?old]"
    using w4 eq unfolding e by (simp_all add: sort_by_creation_time_def)
  have w7: "add_tablet_unlock failing_store_env engine_100_7 100 7 (incoming_tablet 5 2000) True False
     = Some (OLAP_ERR_IO_ERROR, engine_100_7)"
    using tf [THEN conjunct2, THEN conjunct2, THEN conjunct2, THEN conjunct2, THEN conjunct2,
              THEN conjunct2, THEN conjunct1] sp5 c5 fl
    unfolding fl' by simp
  have w8: "add_tablet_unlock example_env engine_schema_change 100 7 (incoming_tablet 5 2000) True False
     = Some (OLAP_ERR_PREVIOUS_SCHEMA_CHANGE_NOT_FINISHED,
             engine_schema_change
               \<lparr>meta_store := (meta_store engine_schema_change)
                  (meta_key (incoming_tablet 5 2000) \<mapsto> incoming_tablet 5 2000)\<rparr>)"
    using tb [THEN conjunct2, THEN conjunct2, THEN conjunct2, THEN conjunct2, THEN conjunct2,
              THEN conjunct2, THEN conjunct2, THEN conjunct1, rule_format,
              of "\<lparr>alter_state = ALTER_RUNNING, related_tablet_id = 100,
                   related_schema_hash = 9\<rparr>" ?derived]
      spb c5 ok tk rel older
    by simp
  have w9: "stored_replace_condition False (Some (example_rowset 2 1000)) (example_rowset 5 2000)"
    using t5 [THEN conjunct2, THEN conjunct2, THEN conjunct2, THEN conjunct2, THEN conjunct2,
              THEN conjunct1] fits c5
    by simp
  from w1 w2 w3 w5 w6 w7 w8 c5 w9 show ?thesis by simp
qed

text \<open>
  The existing instance is the base of a running schema change: the incoming tablet is
  newer, with and without \<open>force\<close>, but the drop of the existing instance is refused, the
  registry stays as it is and the status is that of the drop.
\<close>

theorem add_tablet_unlock_schema_change_base_counterexample:
  "find (\<lambda>item. equal item 100 7) (table_arr (tablet_map engine_schema_change) 100)
     = Some ((example_tablet 100 7 1000)
              \<lparr>alter_task := Some \<lparr>alter_state = ALTER_RUNNING, related_tablet_id = 100,
                                   related_schema_hash = 9\<rparr>\<rparr>)
   \<and> rowset_with_max_version (incoming_tablet 5 2000) = Some (example_rowset 5 2000)
   \<and> replace_condition False (Some (example_rowset 2 1000)) (example_rowset 5 2000)
   \<and> stored_replace_condition False (Some (example_rowset 2 1000)) (example_rowset 5 2000)
   \<and> add_tablet_unlock example_env engine_schema_change 100 7 (incoming_tablet 5 2000) False False
       = Some (OLAP_ERR_PREVIOUS_SCHEMA_CHANGE_NOT_FINISHED, engine_schema_change)
   \<and> add_tablet_unlock example_env engine_schema_change 100 7 (incoming_tablet 5 2000) False True
       = Some (OLAP_ERR_PREVIOUS_SCHEMA_CHANGE_NOT_FINISHED, engine_schema_change)"
  by (simp add: engine_schema_change_def replace_condition_def stored_replace_condition_def
        add_eval)

text \<open>
  The conversion to \<^verbatim>\<open>int32_t\<close> matters only for end versions outside the 32-bit range:
  a stored end version \<open>2 ^ 32 + 1\<close> is compared as \<open>1\<close>, so an incoming tablet of that
  version does not replace an instance of version \<open>2\<close> and older creation time.
\<close>

lemma replace_condition_narrowing:
  "stored_replace_condition False (Some (example_rowset 2 1000)) (example_rowset 4294967297 2000)
   \<and> \<not> replace_condition False (Some (example_rowset 2 1000)) (example_rowset 4294967297 2000)
   \<and> add_tablet_unlock example_env engine_100_7 100 7 (incoming_tablet 4294967297 2000) True False
       = Some (OLAP_ERR_ENGINE_INSERT_EXISTS_TABLE, engine_100_7)"
  by (simp add: replace_condition_def stored_replace_condition_def engine_100_7_def add_eval)

end
